theory Spec2Isabelle
  imports Complex_Main "HOL-Library.Sublist"
begin

section \<open>Values, dictionaries and errors\<close>

text \<open>
  The builder of \<^verbatim>\<open>sketch_builder.py\<close> is embedded with explicit state passing.
  Python numbers (the \<^verbatim>\<open>int\<close> and \<^verbatim>\<open>float\<close> coordinates and sizes) are embedded
  in \<^typ>\<open>real\<close>, and the sums and differences of coordinates and sizes are
  those of the reals. The angles of \<^verbatim>\<open>create_binding_arrows\<close> are computed in
  floating point: there every operation is the real operation followed by the
  rounding of the platform, a parameter \<open>rnd\<close>.
\<close>

datatype json =
    JNull
  | JBool bool
  | JNum real
  | JStr string
  | JList "json list"
  | JObj "(string \<times> json) list"

text \<open>A Python \<^verbatim>\<open>dict\<close> with string keys: a style profile or a \<^verbatim>\<open>**kwargs\<close> bag.\<close>

type_synonym pydict = "string \<rightharpoonup> json"

text \<open>
  The exceptions of the builder. \<open>KeyNotUsed\<close> is the
  \<^verbatim>\<open>Exception(f"Key <{key}> not used.")\<close> of the constructor; \<open>TypeError\<close> is what
  Python raises when a keyword of \<^verbatim>\<open>**kwargs\<close> repeats a named parameter of the
  called method, or when a non-numeric padding meets arithmetic;
  \<open>ZeroDivisionError\<close> is what \<^verbatim>\<open>%\<close> raises on a zero divisor. \<open>InvalidRef\<close>
  has no Python counterpart: it marks an address that holds no object, which
  a Python reference can never be.
\<close>

datatype error =
    KeyNotUsed string
  | TypeError string
  | ZeroDivisionError
  | InvalidRef nat

section \<open>Primitives\<close>

datatype prim_class = ShapeC | TextC | LineC

record binding =
  elementId :: string
  gap :: real

record primitive =
  cls :: prim_class
  prim_id :: string
  excal_type :: string
  prim_x :: real
  prim_y :: real
  width :: real
  height :: real
  style :: pydict
  groupIds :: "string list"
  prim_text :: string
  points :: "(real \<times> real) list"
  startBinding :: "binding option"
  endBinding :: "binding option"

section \<open>The builder state\<close>

text \<open>
  One record holds the fields of \<^verbatim>\<open>self\<close> (\<open>data_elements\<close> is
  \<^verbatim>\<open>self.data['elements']\<close>, the only part of \<^verbatim>\<open>self.data\<close> that ever changes)
  together with the part of the interpreter the builder acts on: the object
  store (primitives live at addresses, so that a mutation through one
  reference is seen through every other), the sequence of strings that
  successive calls of \<^verbatim>\<open>str(uuid.uuid4())\<close> return with the number of calls made
  so far, and the files written.
\<close>

record state =
  data_elements :: "json list"
  draw_objs :: "nat list"
  BOX_DEFAULTS :: pydict
  LINE_DEFAULTS :: pydict
  TEXT_DEFAULTS :: pydict
  store :: "primitive list"
  uuid4 :: "nat \<Rightarrow> string"
  uuid_calls :: nat
  files :: "string \<rightharpoonup> json"

subsection \<open>Construction: \<^verbatim>\<open>SketchBuilder.__init__\<close>\<close>

text \<open>
  The loop over \<^verbatim>\<open>custom_defaults.items()\<close>. The three membership tests read the
  box profile as updated so far and the line and text profiles; every
  assignment writes the box profile.
\<close>

fun custom_defaults_loop ::
  "pydict \<Rightarrow> pydict \<Rightarrow> pydict \<Rightarrow> (string \<times> json) list \<Rightarrow> error + pydict" where
  "custom_defaults_loop box line txt [] = Inr box"
| "custom_defaults_loop box line txt ((key, v) # rest) =
     (let (box1, used1) = (if box key \<noteq> None then (box(key \<mapsto> v), True) else (box, False));
          (box2, used2) = (if line key \<noteq> None then (box1(key \<mapsto> v), True) else (box1, used1));
          (box3, used3) = (if txt key \<noteq> None then (box2(key \<mapsto> v), True) else (box2, used2))
      in if \<not> used3 then Inl (KeyNotUsed key)
         else custom_defaults_loop box3 line txt rest)"

text \<open>
  The static tables \<^verbatim>\<open>defaults.BOX_DEFAULTS\<close>, \<^verbatim>\<open>defaults.LINE_DEFAULTS\<close> and
  \<^verbatim>\<open>defaults.TEXT_DEFAULTS\<close> are parameters (\<open>box0\<close>, \<open>line0\<close>, \<open>text0\<close>). The
  constructor initialises the fields of \<^verbatim>\<open>self\<close> in the state it is given.
\<close>

definition SketchBuilder_init ::
  "pydict \<Rightarrow> pydict \<Rightarrow> pydict \<Rightarrow> (string \<times> json) list \<Rightarrow> state \<Rightarrow> error + state" where
  "SketchBuilder_init box0 line0 text0 custom_defaults s =
     (let box = box0;
          line = box0 ++ line0;
          txt = box0 ++ text0
      in case custom_defaults_loop box line txt custom_defaults of
           Inl e \<Rightarrow> Inl e
         | Inr box' \<Rightarrow>
             Inr (s\<lparr>data_elements := [], draw_objs := [], BOX_DEFAULTS := box',
                    LINE_DEFAULTS := line, TEXT_DEFAULTS := txt\<rparr>))"

subsection \<open>Keyword arguments, identifiers and the object store\<close>

text \<open>
  A model function \<open>f a b kwargs s\<close> stands for the call
  \<^verbatim>\<open>f(a, b, **kwargs)\<close>: Python raises \<^verbatim>\<open>TypeError\<close> (multiple values for an
  argument) when a key of the spread dictionary is the name of a parameter of
  \<open>f\<close>. The state after an exception is not modelled: a raise is the value
  \<open>Inl\<close> of the error alone.
\<close>

definition kw_clash :: "string list \<Rightarrow> pydict \<Rightarrow> bool" where
  "kw_clash names kwargs = list_ex (\<lambda>n. kwargs n \<noteq> None) names"

text \<open>\<^verbatim>\<open>str(uuid.uuid4())\<close>: the next string of the generator.\<close>

definition fresh_uuid :: "state \<Rightarrow> string \<times> state" where
  "fresh_uuid s = (uuid4 s (uuid_calls s), s\<lparr>uuid_calls := Suc (uuid_calls s)\<rparr>)"

text \<open>A new object gets the next free address; a reference is an index of the store.\<close>

definition alloc :: "primitive \<Rightarrow> state \<Rightarrow> nat \<times> state" where
  "alloc p s = (length (store s), s\<lparr>store := store s @ [p]\<rparr>)"

definition deref :: "state \<Rightarrow> nat \<Rightarrow> error + primitive" where
  "deref s r = (if r < length (store s) then Inr (store s ! r) else Inl (InvalidRef r))"

definition modify :: "nat \<Rightarrow> (primitive \<Rightarrow> primitive) \<Rightarrow> state \<Rightarrow> state" where
  "modify r f s = s\<lparr>store := (store s)[r := f (store s ! r)]\<rparr>"

subsection \<open>The primitives module\<close>

text \<open>
  Modelled from the spec: the constructor of \<^verbatim>\<open>primitives.Shape\<close>
  (\<^verbatim>\<open>primitives.py\<close> is not among the sources). Spec 4.1: given the kind, a base
  style mapping merged with the caller's overrides (the override wins), the
  centre coordinates and the dimensions, it produces a primitive with a
  freshly generated identifier; spec 3: \<open>groupIds\<close> is empty by default.
\<close>

definition Shape_init ::
  "string \<Rightarrow> pydict \<Rightarrow> real \<Rightarrow> real \<Rightarrow> real \<Rightarrow> real \<Rightarrow> pydict \<Rightarrow> state \<Rightarrow> nat \<times> state" where
  "Shape_init ty defaults x y w h kwargs s =
     (let (ident, s1) = fresh_uuid s
      in alloc \<lparr>cls = ShapeC, prim_id = ident, excal_type = ty, prim_x = x, prim_y = y,
                width = w, height = h, style = defaults ++ kwargs, groupIds = [],
                prim_text = [], points = [], startBinding = None, endBinding = None\<rparr> s1)"

text \<open>
  Modelled from the spec: the constructor of \<^verbatim>\<open>primitives.Text\<close> (absent from the
  sources). Spec 4.3: the width and height are computed from the text content
  unless overridden. The spec fixes neither the character metrics nor how an
  override is given, so the extent of a text under given overrides is the
  parameter \<open>text_extent\<close>.
\<close>

definition Text_init ::
  "(string \<Rightarrow> pydict \<Rightarrow> real \<times> real) \<Rightarrow> string \<Rightarrow> pydict \<Rightarrow> real \<Rightarrow> real \<Rightarrow> pydict \<Rightarrow> state
     \<Rightarrow> nat \<times> state" where
  "Text_init text_extent txt defaults x y kwargs s =
     (let (ident, s1) = fresh_uuid s;
          (w, h) = text_extent txt kwargs
      in alloc \<lparr>cls = TextC, prim_id = ident, excal_type = ''text'', prim_x = x, prim_y = y,
                width = w, height = h, style = defaults ++ kwargs, groupIds = [],
                prim_text = txt, points = [], startBinding = None, endBinding = None\<rparr> s1)"

text \<open>
  Modelled from the spec: the constructor of \<^verbatim>\<open>primitives.Line\<close> (absent from the
  sources). Spec 4.4: it takes a start and an end point in absolute
  coordinates, stores them as two points relative to the first one, and
  derives the position and the extents from them; the arrowheads are style
  entries, given like every other override.
\<close>

definition Line_init ::
  "string \<Rightarrow> pydict \<Rightarrow> real \<times> real \<Rightarrow> real \<times> real \<Rightarrow> pydict \<Rightarrow> state \<Rightarrow> nat \<times> state" where
  "Line_init ty defaults start_pt end_pt kwargs s =
     (let (ident, s1) = fresh_uuid s;
          dx = fst end_pt - fst start_pt;
          dy = snd end_pt - snd start_pt
      in alloc \<lparr>cls = LineC, prim_id = ident, excal_type = ty,
                prim_x = fst start_pt, prim_y = snd start_pt,
                width = \<bar>dx\<bar>, height = \<bar>dy\<bar>, style = defaults ++ kwargs, groupIds = [],
                prim_text = [], points = [(0, 0), (dx, dy)],
                startBinding = None, endBinding = None\<rparr> s1)"

text \<open>
  Modelled from the spec: the property \<^verbatim>\<open>center\<close> of a primitive (absent from the
  sources). Spec 4.1: \<open>center\<close> is \<open>(x, y)\<close>, read-only.
\<close>

definition center :: "primitive \<Rightarrow> real \<times> real" where
  "center p = (prim_x p, prim_y p)"

text \<open>
  Modelled from the spec: \<^verbatim>\<open>Line.set_start_binding\<close> and \<^verbatim>\<open>Line.set_end_binding\<close>
  (absent from the sources). Spec 4.4: each records a non-owning relation (the
  target's id and the padding) on the line and does not mutate the target.
\<close>

definition set_start_binding :: "nat \<Rightarrow> nat \<Rightarrow> real \<Rightarrow> state \<Rightarrow> state" where
  "set_start_binding line target padding s =
     modify line
       (\<lambda>p. p\<lparr>startBinding := Some \<lparr>elementId = prim_id (store s ! target), gap = padding\<rparr>\<rparr>) s"

definition set_end_binding :: "nat \<Rightarrow> nat \<Rightarrow> real \<Rightarrow> state \<Rightarrow> state" where
  "set_end_binding line target padding s =
     modify line
       (\<lambda>p. p\<lparr>endBinding := Some \<lparr>elementId = prim_id (store s ! target), gap = padding\<rparr>\<rparr>) s"

subsection \<open>Creating primitives\<close>

definition add_element :: "nat \<Rightarrow> state \<Rightarrow> nat \<times> state" where
  "add_element element s = (element, s\<lparr>draw_objs := draw_objs s @ [element]\<rparr>)"

definition Rectangle ::
  "real \<Rightarrow> real \<Rightarrow> real \<Rightarrow> real \<Rightarrow> pydict \<Rightarrow> state \<Rightarrow> error + (nat \<times> state)" where
  "Rectangle x y w h kwargs s =
     (if kw_clash [''self'', ''x'', ''y'', ''width'', ''height''] kwargs
      then Inl (TypeError ''Rectangle'')
      else let (r, s1) = Shape_init ''rectangle'' (BOX_DEFAULTS s) x y w h kwargs s
           in Inr (add_element r s1))"

definition Diamond ::
  "real \<Rightarrow> real \<Rightarrow> real \<Rightarrow> real \<Rightarrow> pydict \<Rightarrow> state \<Rightarrow> error + (nat \<times> state)" where
  "Diamond x y w h kwargs s =
     (if kw_clash [''self'', ''x'', ''y'', ''width'', ''height''] kwargs
      then Inl (TypeError ''Diamond'')
      else let (r, s1) = Shape_init ''diamond'' (BOX_DEFAULTS s) x y w h kwargs s
           in Inr (add_element r s1))"

definition Ellipse ::
  "real \<Rightarrow> real \<Rightarrow> real \<Rightarrow> real \<Rightarrow> pydict \<Rightarrow> state \<Rightarrow> error + (nat \<times> state)" where
  "Ellipse x y w h kwargs s =
     (if kw_clash [''self'', ''x'', ''y'', ''width'', ''height''] kwargs
      then Inl (TypeError ''Ellipse'')
      else let (r, s1) = Shape_init ''ellipse'' (BOX_DEFAULTS s) x y w h kwargs s
           in Inr (add_element r s1))"

definition Text ::
  "(string \<Rightarrow> pydict \<Rightarrow> real \<times> real) \<Rightarrow> string \<Rightarrow> real \<Rightarrow> real \<Rightarrow> pydict \<Rightarrow> state
     \<Rightarrow> error + (nat \<times> state)" where
  "Text text_extent txt x y kwargs s =
     (if kw_clash [''self'', ''text'', ''x'', ''y''] kwargs
      then Inl (TypeError ''Text'')
      else let (r, s1) = Text_init text_extent txt (TEXT_DEFAULTS s) x y kwargs s
           in Inr (add_element r s1))"

definition Line ::
  "real \<times> real \<Rightarrow> real \<times> real \<Rightarrow> pydict \<Rightarrow> state \<Rightarrow> error + (nat \<times> state)" where
  "Line start_pt end_pt kwargs s =
     (if kw_clash [''self'', ''start_pt'', ''end_pt''] kwargs
      then Inl (TypeError ''Line'')
      else let (r, s1) = Line_init ''line'' (LINE_DEFAULTS s) start_pt end_pt kwargs s
           in Inr (add_element r s1))"

definition Arrow ::
  "real \<times> real \<Rightarrow> real \<times> real \<Rightarrow> pydict \<Rightarrow> state \<Rightarrow> error + (nat \<times> state)" where
  "Arrow start_pt end_pt kwargs s =
     (if kw_clash [''self'', ''start_pt'', ''end_pt''] kwargs
      then Inl (TypeError ''Arrow'')
      else let kwargs1 = kwargs(''endArrowhead'' \<mapsto> JStr ''arrow'');
               (arrow, s1) = Line_init ''arrow'' (LINE_DEFAULTS s) start_pt end_pt kwargs1 s;
               (_, s2) = add_element arrow s1
           in Inr (arrow, s2))"

definition DoubleArrow ::
  "real \<times> real \<Rightarrow> real \<times> real \<Rightarrow> pydict \<Rightarrow> state \<Rightarrow> error + (nat \<times> state)" where
  "DoubleArrow start_pt end_pt kwargs s =
     (if kw_clash [''self'', ''start_pt'', ''end_pt''] kwargs
      then Inl (TypeError ''DoubleArrow'')
      else let kwargs1 = kwargs(''startArrowhead'' \<mapsto> JStr ''arrow'')
           in Arrow start_pt end_pt kwargs1 s)"

subsection \<open>Export: \<^verbatim>\<open>export_to_file\<close>\<close>

text \<open>
  \<^verbatim>\<open>str.split\<close> with a separator of one character: the pieces between the
  occurrences of the separator, never an empty list.
\<close>

fun py_split :: "char \<Rightarrow> string \<Rightarrow> string list" where
  "py_split sep [] = [[]]"
| "py_split sep (c # cs) =
     (if c = sep then [] # py_split sep cs
      else (case py_split sep cs of
              [] \<Rightarrow> [[c]]
            | piece # pieces \<Rightarrow> (c # piece) # pieces))"

text \<open>Lines 122-123: the path the file is written under.\<close>

definition export_path :: "string \<Rightarrow> string" where
  "export_path save_path =
     (if last (py_split CHR ''.'' save_path) \<noteq> ''excalidraw''
      then save_path @ ''.excalidraw''
      else save_path)"

text \<open>
  The loop of lines 118-120. \<open>export\<close> is \<^verbatim>\<open>element.export()\<close> of the absent
  primitives module, a parameter: the serialisation of one primitive.
\<close>

fun export_loop :: "(primitive \<Rightarrow> json) \<Rightarrow> nat list \<Rightarrow> state \<Rightarrow> error + state" where
  "export_loop export [] s = Inr s"
| "export_loop export (element # rest) s =
     (case deref s element of
        Inl e \<Rightarrow> Inl e
      | Inr p \<Rightarrow>
          export_loop export rest (s\<lparr>data_elements := data_elements s @ [export p]\<rparr>))"

text \<open>\<^verbatim>\<open>self.data\<close>, the document that \<^verbatim>\<open>json.dump\<close> writes.\<close>

definition document :: "state \<Rightarrow> json" where
  "document s =
     JObj [(''type'', JStr ''excalidraw''),
           (''version'', JNum 1),
           (''source'', JStr ''Excalidraw.py''),
           (''elements'', JList (data_elements s)),
           (''appState'', JObj [(''viewBackgroundColor'', JStr ''#ffffff''),
                                (''gridSize'', JNull)])]"

text \<open>
  A file holds the document written to it; the text that \<^verbatim>\<open>json.dump\<close> renders
  and the errors of the file system are not modelled.
\<close>

definition export_to_file :: "(primitive \<Rightarrow> json) \<Rightarrow> string \<Rightarrow> state \<Rightarrow> error + state" where
  "export_to_file export save_path s =
     (case export_loop export (draw_objs s) s of
        Inl e \<Rightarrow> Inl e
      | Inr s1 \<Rightarrow> Inr (s1\<lparr>files := (files s1)(export_path save_path \<mapsto> document s1)\<rparr>))"

subsection \<open>Binding arrows: \<^verbatim>\<open>create_binding_arrows\<close>\<close>

text \<open>
  The floating-point arithmetic of lines 146-148. A float is a real number;
  an addition or a subtraction of two floats is the real result rounded by
  \<open>rnd\<close>, the rounding of the platform (for binary64, to the nearest float). The
  constant \<^verbatim>\<open>math.pi\<close> is the binary64 number nearest to \<open>\<pi>\<close>, and \<^verbatim>\<open>2*math.pi\<close> is
  its double, which binary floating point computes without rounding.
\<close>

definition math_pi :: real where
  "math_pi = 884279719003555 / 2 ^ 48"

text \<open>
  C's \<^verbatim>\<open>fmod\<close>: \<open>x\<close> minus \<open>y\<close> times the quotient truncated towards zero. The
  result is a float and is computed without rounding.
\<close>

definition c_fmod :: "real \<Rightarrow> real \<Rightarrow> real" where
  "c_fmod x y = x - y * of_int (if 0 \<le> x / y then \<lfloor>x / y\<rfloor> else \<lceil>x / y\<rceil>)"

text \<open>
  Python's \<^verbatim>\<open>%\<close> on floats (\<^verbatim>\<open>float_rem\<close> of the interpreter): the remainder of
  \<^verbatim>\<open>fmod\<close>, to which the divisor is added, with rounding, when the two differ
  in sign, so that the result has the sign of the divisor.
\<close>

definition py_mod :: "(real \<Rightarrow> real) \<Rightarrow> real \<Rightarrow> real \<Rightarrow> error + real" where
  "py_mod rnd a m =
     (if m = 0 then Inl ZeroDivisionError
      else let md = c_fmod a m
           in if md \<noteq> 0
              then (if (m < 0) \<noteq> (md < 0) then Inr (rnd (md + m)) else Inr md)
              else Inr 0)"

text \<open>
  Lines 142-148: the two angles handed to \<^verbatim>\<open>get_edge_midpoint\<close>. \<open>atan2f\<close> is
  \<^verbatim>\<open>math.atan2\<close>, the function of the C library, a parameter: it takes the
  differences \<^verbatim>\<open>(dy, dx)\<close> of the centre coordinates and returns a float. A zero
  is one real number: the sign of a floating-point zero is not modelled.
\<close>

definition binding_angles ::
  "(real \<Rightarrow> real) \<Rightarrow> (real \<Rightarrow> real \<Rightarrow> real) \<Rightarrow> real \<times> real \<Rightarrow> real \<times> real
     \<Rightarrow> error + (real \<times> real)" where
  "binding_angles rnd atan2f center_start center_end =
     (let dx = fst center_end - fst center_start;
          dy = snd center_end - snd center_start;
          theta0 = atan2f dy dx
      in case py_mod rnd (rnd (theta0 + math_pi)) (2 * math_pi) of
           Inl e \<Rightarrow> Inl e
         | Inr r1 \<Rightarrow>
            (let theta = rnd (r1 - math_pi)
             in case py_mod rnd theta (2 * math_pi) of
                  Inl e \<Rightarrow> Inl e
                | Inr r2 \<Rightarrow> Inr (theta, rnd (r2 - math_pi))))"

datatype arrow_factory = FArrow | FDoubleArrow

fun call_arrow ::
  "arrow_factory \<Rightarrow> real \<times> real \<Rightarrow> real \<times> real \<Rightarrow> pydict \<Rightarrow> state \<Rightarrow> error + (nat \<times> state)" where
  "call_arrow FArrow = Arrow"
| "call_arrow FDoubleArrow = DoubleArrow"

text \<open>
  \<open>get_edge_midpoint\<close> is the method of the absent primitives module, a
  parameter: the boundary point of a primitive at an angle and a padding
  (spec 4.1: pure geometry, no side effect). The source has no \<^verbatim>\<open>return\<close>: the
  call evaluates to \<^verbatim>\<open>None\<close>.
\<close>

definition create_binding_arrows ::
  "(real \<Rightarrow> real) \<Rightarrow> (real \<Rightarrow> real \<Rightarrow> real) \<Rightarrow> (primitive \<Rightarrow> real \<Rightarrow> real \<Rightarrow> real \<times> real)
     \<Rightarrow> nat \<Rightarrow> nat \<Rightarrow> arrow_factory option \<Rightarrow> real \<Rightarrow> pydict \<Rightarrow> state
     \<Rightarrow> error + (nat option \<times> state)" where
  "create_binding_arrows rnd atan2f get_edge_midpoint start end' arrow padding kwargs s =
     (if kw_clash [''self'', ''start'', ''end'', ''arrow'', ''padding''] kwargs
      then Inl (TypeError ''create_binding_arrows'')
      else
        let arrow1 = (case arrow of None \<Rightarrow> FArrow | Some f \<Rightarrow> f)
        in case deref s start of
             Inl e \<Rightarrow> Inl e
           | Inr start_p \<Rightarrow>
              (case deref s end' of
                 Inl e \<Rightarrow> Inl e
               | Inr end_p \<Rightarrow>
                  (case binding_angles rnd atan2f (center start_p) (center end_p) of
                     Inl e \<Rightarrow> Inl e
                   | Inr (theta, inverted_theta) \<Rightarrow>
                      (let start_pt = get_edge_midpoint start_p theta padding;
                           end_pt = get_edge_midpoint end_p inverted_theta padding
                       in case call_arrow arrow1 start_pt end_pt kwargs s of
                            Inl e \<Rightarrow> Inl e
                          | Inr (line, s1) \<Rightarrow>
                              (let s2 = set_start_binding line start padding s1;
                                   s3 = set_end_binding line end' padding s2
                               in Inr (None, s3))))))"

subsection \<open>Bounding elements: \<^verbatim>\<open>create_bounding_element\<close> and \<^verbatim>\<open>TextBox\<close>\<close>

datatype shape_factory = FRectangle | FDiamond | FEllipse

fun call_shape ::
  "shape_factory \<Rightarrow> real \<Rightarrow> real \<Rightarrow> real \<Rightarrow> real \<Rightarrow> pydict \<Rightarrow> state \<Rightarrow> error + (nat \<times> state)" where
  "call_shape FRectangle = Rectangle"
| "call_shape FDiamond = Diamond"
| "call_shape FEllipse = Ellipse"

definition create_bounding_element ::
  "nat \<Rightarrow> shape_factory option \<Rightarrow> real \<Rightarrow> pydict \<Rightarrow> state \<Rightarrow> error + (nat \<times> state)" where
  "create_bounding_element element function padding kwargs s =
     (if kw_clash [''self'', ''element'', ''function'', ''padding''] kwargs
      then Inl (TypeError ''create_bounding_element'')
      else
        let function1 = (case function of None \<Rightarrow> FRectangle | Some f \<Rightarrow> f)
        in case deref s element of
             Inl e \<Rightarrow> Inl e
           | Inr el \<Rightarrow>
              (let element_center = center el;
                   new_x = fst element_center;
                   new_y = snd element_center;
                   new_width = width el + 2 * padding;
                   new_height = height el + 2 * padding
               in case call_shape function1 new_x new_y new_width new_height kwargs s of
                    Inl e \<Rightarrow> Inl e
                  | Inr (bounding_elem, s1) \<Rightarrow>
                      (let (group_id, s2) = fresh_uuid s1;
                           s3 = modify element (\<lambda>p. p\<lparr>groupIds := groupIds p @ [group_id]\<rparr>) s2;
                           s4 = modify bounding_elem
                                  (\<lambda>p. p\<lparr>groupIds := groupIds p @ [group_id]\<rparr>) s3
                       in Inr (bounding_elem, s4))))"

text \<open>The default of the parameter \<^verbatim>\<open>padding\<close> (lines 129 and 156).\<close>

definition default_padding :: real where
  "default_padding = 10"

text \<open>
  A padding that arrives through a spread dictionary: a number (a Python
  \<^verbatim>\<open>bool\<close> is one) or a value on which \<^verbatim>\<open>element.width + 2 * padding\<close> raises.
\<close>

fun num_of_json :: "json \<Rightarrow> real option" where
  "num_of_json (JNum r) = Some r"
| "num_of_json (JBool b) = Some (if b then 1 else 0)"
| "num_of_json _ = None"

text \<open>
  \<^verbatim>\<open>TextBox\<close> calls \<^verbatim>\<open>self.create_bounding_element(txt, self.Rectangle, **rect_kwargs)\<close>:
  a key \<^verbatim>\<open>padding\<close> of \<^verbatim>\<open>rect_kwargs\<close> binds the parameter \<^verbatim>\<open>padding\<close>, every other key
  goes on to the rectangle.
\<close>

definition TextBox ::
  "(string \<Rightarrow> pydict \<Rightarrow> real \<times> real) \<Rightarrow> string \<Rightarrow> real \<Rightarrow> real \<Rightarrow> pydict option \<Rightarrow> pydict option
     \<Rightarrow> state \<Rightarrow> error + (nat \<times> state)" where
  "TextBox text_extent txt x y txt_kwargs rect_kwargs s =
     (let txt_kwargs1 = (case txt_kwargs of None \<Rightarrow> Map.empty | Some k \<Rightarrow> k);
          rect_kwargs1 = (case rect_kwargs of None \<Rightarrow> Map.empty | Some k \<Rightarrow> k)
      in case Text text_extent txt x y txt_kwargs1 s of
           Inl e \<Rightarrow> Inl e
         | Inr (t, s1) \<Rightarrow>
            (case rect_kwargs1 ''padding'' of
               None \<Rightarrow>
                 create_bounding_element t (Some FRectangle) default_padding rect_kwargs1 s1
             | Some v \<Rightarrow>
                (case num_of_json v of
                   None \<Rightarrow> Inl (TypeError ''create_bounding_element'')
                 | Some padding \<Rightarrow>
                     create_bounding_element t (Some FRectangle) padding
                       (rect_kwargs1(''padding'' := None)) s1)))"

subsection \<open>A concrete run\<close>

text \<open>
  Concrete values for the parameters, used where a statement is evaluated on
  an input: a generator of identifiers, three small default tables, and
  stand-ins for the text metrics, the serialisation and the edge geometry of
  the primitives module. No general statement depends on them.
\<close>

definition demo_uuid4 :: "nat \<Rightarrow> string" where
  "demo_uuid4 n = ''id'' @ replicate n CHR ''+''"

definition demo_box :: pydict where
  "demo_box = [''strokeColor'' \<mapsto> JStr ''#000000'']"

definition demo_line :: pydict where
  "demo_line = [''endArrowhead'' \<mapsto> JNull]"

definition demo_text :: pydict where
  "demo_text = [''fontSize'' \<mapsto> JNum 20]"

definition blank_state :: state where
  "blank_state =
     \<lparr>data_elements = [], draw_objs = [], BOX_DEFAULTS = Map.empty,
      LINE_DEFAULTS = Map.empty, TEXT_DEFAULTS = Map.empty, store = [],
      uuid4 = demo_uuid4, uuid_calls = 0, files = Map.empty\<rparr>"

text \<open>
  The state after \<^verbatim>\<open>Rectangle(100, 100, 50, 50)\<close> and \<^verbatim>\<open>Rectangle(300, 100, 50, 50)\<close>
  on a builder constructed over the demo tables with no custom defaults.
\<close>

definition demo_rect :: "string \<Rightarrow> real \<Rightarrow> primitive" where
  "demo_rect ident x =
     \<lparr>cls = ShapeC, prim_id = ident, excal_type = ''rectangle'', prim_x = x, prim_y = 100,
      width = 50, height = 50, style = demo_box, groupIds = [],
      prim_text = [], points = [], startBinding = None, endBinding = None\<rparr>"

definition demo_state :: state where
  "demo_state =
     \<lparr>data_elements = [], draw_objs = [0, 1], BOX_DEFAULTS = demo_box,
      LINE_DEFAULTS = demo_box ++ demo_line, TEXT_DEFAULTS = demo_box ++ demo_text,
      store = [demo_rect ''id'' 100, demo_rect ''id+'' 300],
      uuid4 = demo_uuid4, uuid_calls = 2, files = Map.empty\<rparr>"

definition demo_extent :: "string \<Rightarrow> pydict \<Rightarrow> real \<times> real" where
  "demo_extent txt kwargs = (10 * real (length txt), 25)"

definition demo_export :: "primitive \<Rightarrow> json" where
  "demo_export p = JObj [(''id'', JStr (prim_id p)), (''type'', JStr (excal_type p))]"

text \<open>
  A rounding to the multiples of \<open>1 / 2 ^ 48\<close> (\<^verbatim>\<open>math.pi\<close> is one), and \<^verbatim>\<open>math.atan2\<close>
  on the half-axes, where its value is known, with \<open>0\<close> standing in elsewhere.
\<close>

definition demo_rnd :: "real \<Rightarrow> real" where
  "demo_rnd v = of_int \<lfloor>v * 2 ^ 48 + 1 / 2\<rfloor> / 2 ^ 48"

definition demo_atan2 :: "real \<Rightarrow> real \<Rightarrow> real" where
  "demo_atan2 dy dx =
     (if dy = 0 \<and> dx < 0 then math_pi
      else if dx = 0 \<and> 0 < dy then math_pi / 2
      else if dx = 0 \<and> dy < 0 then - math_pi / 2
      else 0)"

definition demo_edge :: "primitive \<Rightarrow> real \<Rightarrow> real \<Rightarrow> real \<times> real" where
  "demo_edge p angle padding =
     (if 0 \<le> angle then (prim_x p + width p / 2 + padding, prim_y p)
      else (prim_x p - width p / 2 - padding, prim_y p))"

section \<open>Construction with custom defaults\<close>

lemma custom_defaults_loop_dom:
  "custom_defaults_loop box line txt cds = Inr box' \<Longrightarrow> dom box \<subseteq> dom box'"
proof (induction cds arbitrary: box)
  case Nil
  then show ?case by simp
next
  case (Cons a cds)
  obtain key v where a: "a = (key, v)" by (cases a)
  from Cons.prems a have used: "box key \<noteq> None \<or> line key \<noteq> None \<or> txt key \<noteq> None"
    by (auto split: if_splits)
  then have "custom_defaults_loop (box(key \<mapsto> v)) line txt cds = Inr box'"
    using Cons.prems a by (auto split: if_splits)
  from Cons.IH [OF this] have "dom (box(key \<mapsto> v)) \<subseteq> dom box'" .
  moreover have "dom box \<subseteq> dom (box(key \<mapsto> v))" by auto
  ultimately show ?case by blast
qed

lemma custom_defaults_loop_fails_iff:
  "(\<exists>e. custom_defaults_loop box line txt cds = Inl e) \<longleftrightarrow>
     (\<exists>key \<in> fst ` set cds. box key = None \<and> line key = None \<and> txt key = None)"
proof (induction cds arbitrary: box)
  case Nil
  then show ?case by simp
next
  case (Cons a cds)
  obtain key v where a: "a = (key, v)" by (cases a)
  show ?case
  proof (cases "box key \<noteq> None \<or> line key \<noteq> None \<or> txt key \<noteq> None")
    case False
    then show ?thesis using a by auto
  next
    case True
    then have step: "custom_defaults_loop box line txt (a # cds) =
        custom_defaults_loop (box(key \<mapsto> v)) line txt cds"
      using a by auto
    have upd: "((box(key \<mapsto> v)) k = None \<and> line k = None \<and> txt k = None) \<longleftrightarrow>
          (box k = None \<and> line k = None \<and> txt k = None)" for k
      using True by (cases "k = key") auto
    have "(\<exists>e. custom_defaults_loop box line txt (a # cds) = Inl e) \<longleftrightarrow>
          (\<exists>e. custom_defaults_loop (box(key \<mapsto> v)) line txt cds = Inl e)"
      by (simp only: step)
    also have "\<dots> \<longleftrightarrow>
          (\<exists>k \<in> fst ` set cds. (box(key \<mapsto> v)) k = None \<and> line k = None \<and> txt k = None)"
      by (rule Cons.IH)
    also have "\<dots> \<longleftrightarrow>
          (\<exists>k \<in> fst ` set cds. box k = None \<and> line k = None \<and> txt k = None)"
      by (simp only: upd)
    also have "\<dots> \<longleftrightarrow>
          (\<exists>k \<in> fst ` set (a # cds). box k = None \<and> line k = None \<and> txt k = None)"
      using True a by (simp del: not_None_eq) blast
    finally show ?thesis .
  qed
qed

lemma custom_defaults_loop_result:
  "custom_defaults_loop box line txt cds = Inr box' \<Longrightarrow> box' = box ++ map_of (rev cds)"
proof (induction cds arbitrary: box)
  case Nil
  then show ?case by simp
next
  case (Cons a cds)
  obtain key v where a: "a = (key, v)" by (cases a)
  from Cons.prems a have used: "box key \<noteq> None \<or> line key \<noteq> None \<or> txt key \<noteq> None"
    by (auto split: if_splits)
  then have "custom_defaults_loop (box(key \<mapsto> v)) line txt cds = Inr box'"
    using Cons.prems a by (auto split: if_splits)
  from Cons.IH [OF this] have "box' = box(key \<mapsto> v) ++ map_of (rev cds)" .
  also have "\<dots> = box ++ map_of (rev (a # cds))"
    using a by (simp add: map_add_upd_left fun_eq_iff map_add_def split: option.splits)
  finally show ?case .
qed

lemma custom_defaults_loop_error:
  "custom_defaults_loop box line txt cds = Inl e \<Longrightarrow>
     \<exists>key \<in> fst ` set cds. e = KeyNotUsed key \<and> box key = None \<and> line key = None \<and> txt key = None"
proof (induction cds arbitrary: box)
  case Nil
  then show ?case by simp
next
  case (Cons a cds)
  obtain key v where a: "a = (key, v)" by (cases a)
  show ?case
  proof (cases "box key \<noteq> None \<or> line key \<noteq> None \<or> txt key \<noteq> None")
    case False
    then show ?thesis using Cons.prems a by auto
  next
    case True
    then have "custom_defaults_loop (box(key \<mapsto> v)) line txt cds = Inl e"
      using Cons.prems a by (auto split: if_splits)
    from Cons.IH [OF this] obtain k where k: "k \<in> fst ` set cds" "e = KeyNotUsed k"
      "(box(key \<mapsto> v)) k = None" "line k = None" "txt k = None" by blast
    from k(3) have "box k = None" by (cases "k = key") auto
    with k show ?thesis by auto
  qed
qed

lemma notin_dom_iff: "(k \<notin> dom m) = (m k = None)"
  by auto

text \<open>
  Claim C3. Constructing a builder with custom defaults raises exactly when
  some supplied key is in none of the three profiles of the builder (the box
  profile, the line profile layered over it, the text profile layered over
  it), and succeeds exactly when there is no such key; the exception raised
  is \<open>KeyNotUsed\<close> of a supplied key that is in none of them.
\<close>

theorem SketchBuilder_init_raises_iff:
  "((\<exists>e. SketchBuilder_init box0 line0 text0 cds s = Inl e) \<longleftrightarrow>
      (\<exists>key \<in> fst ` set cds.
          key \<notin> dom box0 \<and> key \<notin> dom (box0 ++ line0) \<and> key \<notin> dom (box0 ++ text0))) \<and>
   ((\<exists>s'. SketchBuilder_init box0 line0 text0 cds s = Inr s') \<longleftrightarrow>
      \<not> (\<exists>key \<in> fst ` set cds.
          key \<notin> dom box0 \<and> key \<notin> dom (box0 ++ line0) \<and> key \<notin> dom (box0 ++ text0))) \<and>
   (\<forall>e. SketchBuilder_init box0 line0 text0 cds s = Inl e \<longrightarrow>
      (\<exists>key \<in> fst ` set cds. e = KeyNotUsed key \<and>
          key \<notin> dom box0 \<and> key \<notin> dom (box0 ++ line0) \<and> key \<notin> dom (box0 ++ text0)))"
proof -
  let ?loop = "custom_defaults_loop box0 (box0 ++ line0) (box0 ++ text0) cds"
  let ?init = "SketchBuilder_init box0 line0 text0 cds s"
  let ?bad = "\<exists>key \<in> fst ` set cds.
          key \<notin> dom box0 \<and> key \<notin> dom (box0 ++ line0) \<and> key \<notin> dom (box0 ++ text0)"
  have init_l: "?init = Inl e \<longleftrightarrow> ?loop = Inl e" for e
    by (cases ?loop) (simp_all add: SketchBuilder_init_def Let_def)
  have fails: "(\<exists>e. ?loop = Inl e) \<longleftrightarrow> ?bad"
    unfolding notin_dom_iff by (rule custom_defaults_loop_fails_iff)
  have one: "(\<exists>e. ?init = Inl e) \<longleftrightarrow> ?bad"
    unfolding init_l by (rule fails)
  have "(\<exists>s'. ?init = Inr s') \<longleftrightarrow> \<not> (\<exists>e. ?init = Inl e)"
    by (cases ?init) simp_all
  then have two: "(\<exists>s'. ?init = Inr s') \<longleftrightarrow> \<not> ?bad"
    unfolding one .
  have three: "\<forall>e. ?init = Inl e \<longrightarrow>
      (\<exists>key \<in> fst ` set cds. e = KeyNotUsed key \<and>
          key \<notin> dom box0 \<and> key \<notin> dom (box0 ++ line0) \<and> key \<notin> dom (box0 ++ text0))"
  proof (intro allI impI)
    fix e assume "?init = Inl e"
    then have "?loop = Inl e" unfolding init_l .
    from custom_defaults_loop_error [OF this]
    show "\<exists>key \<in> fst ` set cds. e = KeyNotUsed key \<and>
          key \<notin> dom box0 \<and> key \<notin> dom (box0 ++ line0) \<and> key \<notin> dom (box0 ++ text0)"
      unfolding notin_dom_iff .
  qed
  show ?thesis by (intro conjI one two three)
qed

theorem SketchBuilder_init_raises_iff_witness:
  "(\<exists>e. SketchBuilder_init demo_box demo_line demo_text
           [(''fontSize'', JNum 16), (''bogus'', JNull)] blank_state = Inl e) \<and>
   (\<exists>s'. SketchBuilder_init demo_box demo_line demo_text
           [(''fontSize'', JNum 16), (''endArrowhead'', JStr ''dot'')] blank_state = Inr s')"
proof -
  have a: "\<exists>key \<in> fst ` set [(''fontSize'', JNum 16), (''bogus'', JNull)].
          key \<notin> dom demo_box \<and> key \<notin> dom (demo_box ++ demo_line) \<and>
          key \<notin> dom (demo_box ++ demo_text)"
    by (simp add: demo_box_def demo_line_def demo_text_def)
  have b: "\<not> (\<exists>key \<in> fst ` set [(''fontSize'', JNum 16), (''endArrowhead'', JStr ''dot'')].
          key \<notin> dom demo_box \<and> key \<notin> dom (demo_box ++ demo_line) \<and>
          key \<notin> dom (demo_box ++ demo_text))"
    by (simp add: demo_box_def demo_line_def demo_text_def)
  note thm1 = SketchBuilder_init_raises_iff [of demo_box demo_line demo_text
        "[(''fontSize'', JNum 16), (''bogus'', JNull)]" blank_state]
  note thm2 = SketchBuilder_init_raises_iff [of demo_box demo_line demo_text
        "[(''fontSize'', JNum 16), (''endArrowhead'', JStr ''dot'')]" blank_state]
  from thm1 [THEN conjunct1, THEN iffD2, OF a]
       thm2 [THEN conjunct2, THEN conjunct1, THEN iffD2, OF b]
  show ?thesis by (rule conjI)
qed

text \<open>
  Claim C5. When construction succeeds, the line and text profiles are the
  static tables layered over the static box table, untouched by the custom
  defaults; every supplied value is written into the box profile (the last
  value given for a key stands, and an entry is created when the box table
  has none), and the box profile is unchanged at every other key.
\<close>

theorem SketchBuilder_init_writes_box_only:
  assumes "SketchBuilder_init box0 line0 text0 cds s = Inr s'"
  shows "LINE_DEFAULTS s' = box0 ++ line0 \<and>
         TEXT_DEFAULTS s' = box0 ++ text0 \<and>
         BOX_DEFAULTS s' = box0 ++ map_of (rev cds) \<and>
         (distinct (map fst cds) \<longrightarrow> (\<forall>(key, v) \<in> set cds. BOX_DEFAULTS s' key = Some v)) \<and>
         (\<forall>key. key \<notin> fst ` set cds \<longrightarrow> BOX_DEFAULTS s' key = box0 key)"
proof -
  let ?loop = "custom_defaults_loop box0 (box0 ++ line0) (box0 ++ text0) cds"
  from assms obtain box' where
    loop: "?loop = Inr box'" and
    s': "s' = s\<lparr>data_elements := [], draw_objs := [], BOX_DEFAULTS := box',
                LINE_DEFAULTS := box0 ++ line0, TEXT_DEFAULTS := box0 ++ text0\<rparr>"
    by (cases ?loop) (simp_all add: SketchBuilder_init_def Let_def)
  from custom_defaults_loop_result [OF loop] have box': "box' = box0 ++ map_of (rev cds)" .
  have bx: "BOX_DEFAULTS s' = box0 ++ map_of (rev cds)" using s' box' by simp
  have d: "distinct (map fst cds) \<longrightarrow> (\<forall>(key, v) \<in> set cds. BOX_DEFAULTS s' key = Some v)"
  proof (intro impI ballI, clarify)
    fix key v assume dist: "distinct (map fst cds)" and mem: "(key, v) \<in> set cds"
    have "distinct (map fst (rev cds))" using dist by (simp add: rev_map [symmetric])
    moreover have "(key, v) \<in> set (rev cds)" using mem by simp
    ultimately have "map_of (rev cds) key = Some v" by (rule map_of_is_SomeI)
    then show "BOX_DEFAULTS s' key = Some v" unfolding bx by (simp add: map_add_def)
  qed
  have n: "\<forall>key. key \<notin> fst ` set cds \<longrightarrow> BOX_DEFAULTS s' key = box0 key"
  proof (intro allI impI)
    fix key assume "key \<notin> fst ` set cds"
    then have "map_of (rev cds) key = None" by (simp add: map_of_eq_None_iff)
    then show "BOX_DEFAULTS s' key = box0 key" unfolding bx by (simp add: map_add_def)
  qed
  have l: "LINE_DEFAULTS s' = box0 ++ line0" using s' by simp
  have tx: "TEXT_DEFAULTS s' = box0 ++ text0" using s' by simp
  show ?thesis by (intro conjI l tx bx d n)
qed

theorem SketchBuilder_init_writes_box_only_witness:
  "\<exists>s'. SketchBuilder_init demo_box demo_line demo_text
           [(''fontSize'', JNum 16), (''endArrowhead'', JStr ''dot'')] blank_state = Inr s' \<and>
        LINE_DEFAULTS s' = demo_box ++ demo_line \<and>
        TEXT_DEFAULTS s' = demo_box ++ demo_text \<and>
        TEXT_DEFAULTS s' ''fontSize'' = Some (JNum 20) \<and>
        LINE_DEFAULTS s' ''endArrowhead'' = Some JNull \<and>
        BOX_DEFAULTS s' ''fontSize'' = Some (JNum 16) \<and>
        BOX_DEFAULTS s' ''endArrowhead'' = Some (JStr ''dot'') \<and>
        BOX_DEFAULTS s' ''strokeColor'' = Some (JStr ''#000000'')"
proof -
  let ?cds = "[(''fontSize'', JNum 16), (''endArrowhead'', JStr ''dot'')]"
  have "\<not> (\<exists>key \<in> fst ` set ?cds.
          key \<notin> dom demo_box \<and> key \<notin> dom (demo_box ++ demo_line) \<and>
          key \<notin> dom (demo_box ++ demo_text))"
    by (simp add: demo_box_def demo_line_def demo_text_def)
  then obtain s' where
    ok: "SketchBuilder_init demo_box demo_line demo_text ?cds blank_state = Inr s'"
    using custom_defaults_loop_fails_iff
      [of demo_box "demo_box ++ demo_line" "demo_box ++ demo_text" ?cds]
    by (cases "custom_defaults_loop demo_box (demo_box ++ demo_line) (demo_box ++ demo_text) ?cds")
       (simp_all only: notin_dom_iff SketchBuilder_init_def Let_def sum.case, blast+)
  note facts = SketchBuilder_init_writes_box_only [OF ok]
  have l: "LINE_DEFAULTS s' = demo_box ++ demo_line" using facts by blast
  have tx: "TEXT_DEFAULTS s' = demo_box ++ demo_text" using facts by blast
  have bx: "BOX_DEFAULTS s' = demo_box ++ map_of (rev ?cds)" using facts by blast
  have "TEXT_DEFAULTS s' ''fontSize'' = Some (JNum 20)"
    unfolding tx by (simp add: demo_box_def demo_text_def)
  moreover have "LINE_DEFAULTS s' ''endArrowhead'' = Some JNull"
    unfolding l by (simp add: demo_box_def demo_line_def)
  moreover have "BOX_DEFAULTS s' ''fontSize'' = Some (JNum 16)"
    unfolding bx by (simp add: demo_box_def)
  moreover have "BOX_DEFAULTS s' ''endArrowhead'' = Some (JStr ''dot'')"
    unfolding bx by (simp add: demo_box_def)
  moreover have "BOX_DEFAULTS s' ''strokeColor'' = Some (JStr ''#000000'')"
    unfolding bx by (simp add: demo_box_def)
  ultimately show ?thesis using ok l tx by blast
qed

section \<open>Export\<close>

subsection \<open>The path of the written file\<close>

lemma py_split_not_Nil: "py_split c s \<noteq> []"
  by (induction s) (auto split: list.splits)

lemma length_py_split: "length (py_split c s) = Suc (length (filter (\<lambda>x. x = c) s))"
  by (induction s) (auto split: list.splits)

lemma py_split_no_sep: "c \<notin> set s \<Longrightarrow> py_split c s = [s]"
  by (induction s) auto

lemma last_py_split: "c \<notin> set ys \<Longrightarrow> last (py_split c (xs @ c # ys)) = ys"
proof (induction xs)
  case Nil
  then show ?case by (simp add: py_split_no_sep)
next
  case (Cons x xs)
  have len: "2 \<le> length (py_split c (xs @ c # ys))"
    by (simp add: length_py_split)
  show ?case
  proof (cases "x = c")
    case True
    then show ?thesis using Cons py_split_not_Nil [of c "xs @ c # ys"] by simp
  next
    case False
    obtain p q ps where ps: "py_split c (xs @ c # ys) = p # q # ps"
      using len by (cases "py_split c (xs @ c # ys)") (auto simp: Suc_le_eq neq_Nil_conv)
    then show ?thesis using False Cons by simp
  qed
qed

lemma last_py_split_cases:
  "(c \<notin> set s \<and> last (py_split c s) = s) \<or>
   (\<exists>xs ys. s = xs @ c # ys \<and> c \<notin> set ys \<and> last (py_split c s) = ys)"
proof (cases "c \<in> set s")
  case False
  then show ?thesis by (simp add: py_split_no_sep)
next
  case True
  then obtain xs ys where "s = xs @ c # ys" "c \<notin> set ys"
    by (auto dest: split_list_last)
  then show ?thesis using last_py_split [of c ys xs] by blast
qed

lemma export_path_keeps_suffix:
  "suffix ''.excalidraw'' save_path \<Longrightarrow> export_path save_path = save_path"
proof -
  assume "suffix ''.excalidraw'' save_path"
  then obtain xs where "save_path = xs @ CHR ''.'' # ''excalidraw''"
    by (auto simp: suffix_def)
  then have "last (py_split CHR ''.'' save_path) = ''excalidraw''"
    using last_py_split [of "CHR ''.''" "''excalidraw''" xs] by simp
  then show ?thesis by (simp add: export_path_def)
qed

lemma export_path_appends:
  "\<not> suffix ''.excalidraw'' save_path \<Longrightarrow> save_path \<noteq> ''excalidraw'' \<Longrightarrow>
     export_path save_path = save_path @ ''.excalidraw''"
proof -
  assume ns: "\<not> suffix ''.excalidraw'' save_path" and ne: "save_path \<noteq> ''excalidraw''"
  have "last (py_split CHR ''.'' save_path) \<noteq> ''excalidraw''"
  proof
    assume l: "last (py_split CHR ''.'' save_path) = ''excalidraw''"
    from last_py_split_cases [of "CHR ''.''" save_path] show False
    proof (elim disjE conjE exE)
      assume "last (py_split CHR ''.'' save_path) = save_path"
      with l ne show False by simp
    next
      fix xs ys
      assume "save_path = xs @ CHR ''.'' # ys" "last (py_split CHR ''.'' save_path) = ys"
      with l have "save_path = xs @ ''.excalidraw''" by simp
      with ns show False by (simp add: suffix_def)
    qed
  qed
  then show ?thesis by (simp add: export_path_def)
qed

lemma export_path_suffix_iff:
  "suffix ''.excalidraw'' (export_path save_path) \<longleftrightarrow> save_path \<noteq> ''excalidraw''"
proof (cases "suffix ''.excalidraw'' save_path")
  case True
  then have "save_path \<noteq> ''excalidraw''" by (auto simp: suffix_def)
  with True show ?thesis by (simp add: export_path_keeps_suffix)
next
  case False
  show ?thesis
  proof (cases "save_path = ''excalidraw''")
    case True
    then show ?thesis by (simp add: export_path_def suffix_def)
  next
    case ne: False
    with False have "export_path save_path = save_path @ ''.excalidraw''"
      by (rule export_path_appends)
    with ne show ?thesis by (simp add: suffix_def)
  qed
qed

text \<open>
  Claim C7 (the extension of the written file). The test of line 122 compares
  the piece after the last dot with \<^verbatim>\<open>excalidraw\<close>; a path without any dot is
  its own last piece. By \<open>export_path_suffix_iff\<close> the written path ends in
  \<^verbatim>\<open>.excalidraw\<close> for every save path but one: the bare name \<^verbatim>\<open>excalidraw\<close> lacks
  the extension, nothing is appended to it, and the file is written under a
  path that does not end in \<^verbatim>\<open>.excalidraw\<close>.
\<close>

theorem export_path_bare_name:
  "export_path ''excalidraw'' = ''excalidraw'' \<and>
   \<not> suffix ''.excalidraw'' (export_path ''excalidraw'') \<and>
   export_to_file demo_export ''excalidraw'' blank_state =
     Inr (blank_state\<lparr>files := [''excalidraw'' \<mapsto> document blank_state]\<rparr>)"
  by (simp add: export_path_def export_to_file_def blank_state_def suffix_def document_def)

subsection \<open>The exported elements\<close>

lemma export_loop_ok:
  "\<forall>r \<in> set rs. r < length (store s) \<Longrightarrow>
     export_loop ex rs s =
       Inr (s\<lparr>data_elements := data_elements s @ map (\<lambda>r. ex (store s ! r)) rs\<rparr>)"
proof (induction rs arbitrary: s)
  case Nil
  then show ?case by simp
next
  case (Cons r rs)
  let ?s1 = "s\<lparr>data_elements := data_elements s @ [ex (store s ! r)]\<rparr>"
  from Cons.prems have "\<forall>r \<in> set rs. r < length (store ?s1)" by simp
  from Cons.IH [OF this] Cons.prems show ?case by (simp add: deref_def)
qed

lemma export_to_file_ok:
  assumes "\<forall>r \<in> set (draw_objs s). r < length (store s)"
  shows "\<exists>s1. export_to_file ex path s = Inr s1 \<and>
           data_elements s1 = data_elements s @ map (\<lambda>r. ex (store s ! r)) (draw_objs s) \<and>
           draw_objs s1 = draw_objs s \<and> store s1 = store s \<and>
           files s1 (export_path path) = Some (document s1)"
proof -
  have "export_loop ex (draw_objs s) s =
      Inr (s\<lparr>data_elements := data_elements s @ map (\<lambda>r. ex (store s ! r)) (draw_objs s)\<rparr>)"
    using assms by (rule export_loop_ok)
  then show ?thesis by (simp add: export_to_file_def document_def)
qed

lemma count_list_distinct: "distinct xs \<Longrightarrow> x \<in> set xs \<Longrightarrow> count_list xs x = 1"
  by (induction xs) auto

text \<open>
  Claim C4, as amended. When every registered reference is a live object (as
  every Python reference is), a call of \<^verbatim>\<open>export_to_file\<close> succeeds and appends
  to the document's elements one serialised entry per registration, in the
  order of registration, leaving the registrations and the primitives as they
  were. Where distinct registered primitives have distinct serialisations, a
  primitive has as many entries among the appended ones as it has
  registrations: exactly one when no primitive is registered twice. A second
  call appends the same entries once more, so the list grows again by the
  number of registrations.
\<close>

theorem export_to_file_appends:
  assumes "\<forall>r \<in> set (draw_objs s). r < length (store s)"
  shows "\<exists>s1 s2. export_to_file ex path s = Inr s1 \<and>
           export_to_file ex path' s1 = Inr s2 \<and>
           data_elements s1 = data_elements s @ map (\<lambda>r. ex (store s ! r)) (draw_objs s) \<and>
           data_elements s2 = data_elements s1 @ map (\<lambda>r. ex (store s ! r)) (draw_objs s) \<and>
           length (data_elements s1) = length (data_elements s) + length (draw_objs s) \<and>
           length (data_elements s2) = length (data_elements s1) + length (draw_objs s) \<and>
           draw_objs s1 = draw_objs s \<and> store s1 = store s \<and>
           files s1 (export_path path) = Some (document s1) \<and>
           (\<forall>i < length (draw_objs s).
              data_elements s1 ! (length (data_elements s) + i) =
                ex (store s ! (draw_objs s ! i))) \<and>
           (inj_on (\<lambda>r. ex (store s ! r)) (set (draw_objs s)) \<longrightarrow>
              (\<forall>r \<in> set (draw_objs s).
                 count_list (drop (length (data_elements s)) (data_elements s1))
                   (ex (store s ! r)) = count_list (draw_objs s) r)) \<and>
           (inj_on (\<lambda>r. ex (store s ! r)) (set (draw_objs s)) \<and> distinct (draw_objs s) \<longrightarrow>
              (\<forall>r \<in> set (draw_objs s).
                 count_list (drop (length (data_elements s)) (data_elements s1))
                   (ex (store s ! r)) = 1))"
proof -
  from export_to_file_ok [OF assms, of ex path] obtain s1 where
    e1: "export_to_file ex path s = Inr s1" and
    d1: "data_elements s1 = data_elements s @ map (\<lambda>r. ex (store s ! r)) (draw_objs s)" and
    o1: "draw_objs s1 = draw_objs s" and st1: "store s1 = store s" and
    f1: "files s1 (export_path path) = Some (document s1)"
    by blast
  have "\<forall>r \<in> set (draw_objs s1). r < length (store s1)"
    using assms by (simp add: o1 st1)
  from export_to_file_ok [OF this, of ex path'] obtain s2 where
    e2: "export_to_file ex path' s1 = Inr s2" and
    d2: "data_elements s2 = data_elements s1 @ map (\<lambda>r. ex (store s1 ! r)) (draw_objs s1)"
    by blast
  from d2 have d2': "data_elements s2 = data_elements s1 @ map (\<lambda>r. ex (store s ! r)) (draw_objs s)"
    by (simp add: o1 st1)
  have l1: "length (data_elements s1) = length (data_elements s) + length (draw_objs s)"
    by (simp add: d1)
  have l2: "length (data_elements s2) = length (data_elements s1) + length (draw_objs s)"
    by (simp add: d2')
  have pos: "\<forall>i < length (draw_objs s).
              data_elements s1 ! (length (data_elements s) + i) =
                ex (store s ! (draw_objs s ! i))"
    by (simp add: d1 nth_append)
  have blk: "drop (length (data_elements s)) (data_elements s1) =
               map (\<lambda>r. ex (store s ! r)) (draw_objs s)"
    by (simp add: d1)
  have cnt: "count_list (drop (length (data_elements s)) (data_elements s1))
                   (ex (store s ! r)) = count_list (draw_objs s) r"
    if inj: "inj_on (\<lambda>r. ex (store s ! r)) (set (draw_objs s))" and r: "r \<in> set (draw_objs s)"
    for r
    unfolding blk using inj r by (rule count_list_inj_map)
  have once: "count_list (drop (length (data_elements s)) (data_elements s1))
                   (ex (store s ! r)) = 1"
    if inj: "inj_on (\<lambda>r. ex (store s ! r)) (set (draw_objs s))" and r: "r \<in> set (draw_objs s)"
      and d: "distinct (draw_objs s)"
    for r
  proof -
    from d r have "count_list (draw_objs s) r = 1" by (rule count_list_distinct)
    with cnt [OF inj r] show ?thesis by simp
  qed
  from e1 e2 d1 d2' l1 l2 o1 st1 f1 pos cnt once show ?thesis by blast
qed

theorem export_to_file_appends_witness:
  "\<exists>s1 s2. export_to_file demo_export ''sketch'' demo_state = Inr s1 \<and>
     export_to_file demo_export ''sketch'' s1 = Inr s2 \<and>
     data_elements s1 =
       [JObj [(''id'', JStr ''id''), (''type'', JStr ''rectangle'')],
        JObj [(''id'', JStr ''id+''), (''type'', JStr ''rectangle'')]] \<and>
     data_elements s2 =
       [JObj [(''id'', JStr ''id''), (''type'', JStr ''rectangle'')],
        JObj [(''id'', JStr ''id+''), (''type'', JStr ''rectangle'')],
        JObj [(''id'', JStr ''id''), (''type'', JStr ''rectangle'')],
        JObj [(''id'', JStr ''id+''), (''type'', JStr ''rectangle'')]] \<and>
     distinct (draw_objs demo_state) \<and>
     inj_on (\<lambda>r. demo_export (store demo_state ! r)) (set (draw_objs demo_state)) \<and>
     count_list (data_elements s1)
       (JObj [(''id'', JStr ''id''), (''type'', JStr ''rectangle'')]) = 1 \<and>
     count_list (data_elements s1)
       (JObj [(''id'', JStr ''id+''), (''type'', JStr ''rectangle'')]) = 1"
proof -
  have v: "\<forall>r \<in> set (draw_objs demo_state). r < length (store demo_state)"
    by (simp add: demo_state_def)
  have m: "map (\<lambda>r. demo_export (store demo_state ! r)) (draw_objs demo_state) =
       [JObj [(''id'', JStr ''id''), (''type'', JStr ''rectangle'')],
        JObj [(''id'', JStr ''id+''), (''type'', JStr ''rectangle'')]]"
    by (simp add: demo_state_def demo_export_def demo_rect_def)
  have d: "data_elements demo_state = []" by (simp add: demo_state_def)
  have dis: "distinct (draw_objs demo_state)" by (simp add: demo_state_def)
  have inj: "inj_on (\<lambda>r. demo_export (store demo_state ! r)) (set (draw_objs demo_state))"
    by (simp add: demo_state_def demo_export_def demo_rect_def)
  from export_to_file_appends [OF v, of demo_export "''sketch''" "''sketch''"]
  obtain s1 s2 where
    e1: "export_to_file demo_export ''sketch'' demo_state = Inr s1" and
    e2: "export_to_file demo_export ''sketch'' s1 = Inr s2" and
    d1: "data_elements s1 = data_elements demo_state @
           map (\<lambda>r. demo_export (store demo_state ! r)) (draw_objs demo_state)" and
    d2: "data_elements s2 = data_elements s1 @
           map (\<lambda>r. demo_export (store demo_state ! r)) (draw_objs demo_state)"
    by blast
  from d1 have d1': "data_elements s1 =
       [JObj [(''id'', JStr ''id''), (''type'', JStr ''rectangle'')],
        JObj [(''id'', JStr ''id+''), (''type'', JStr ''rectangle'')]]"
    by (simp only: m d append_Nil)
  from d2 have d2': "data_elements s2 =
       [JObj [(''id'', JStr ''id''), (''type'', JStr ''rectangle'')],
        JObj [(''id'', JStr ''id+''), (''type'', JStr ''rectangle'')],
        JObj [(''id'', JStr ''id''), (''type'', JStr ''rectangle'')],
        JObj [(''id'', JStr ''id+''), (''type'', JStr ''rectangle'')]]"
    by (simp only: m d1' append_Cons append_Nil)
  from e1 e2 d1' d2' dis inj show ?thesis by (intro exI [of _ s1] exI [of _ s2]) simp
qed

text \<open>
  The claim as stated, with every registered primitive exactly once in the
  exported list, fails for a primitive that is registered twice: \<^verbatim>\<open>add_element\<close>
  is a public method and appends what it is given. After \<^verbatim>\<open>add_element\<close> on the
  first rectangle of the demo state, which its creation registered already,
  one export holds the entry of that rectangle twice.
\<close>

theorem export_to_file_counterexample:
  "\<exists>s1. export_to_file demo_export ''sketch'' (snd (add_element 0 demo_state)) = Inr s1 \<and>
     draw_objs (snd (add_element 0 demo_state)) = [0, 1, 0] \<and>
     length (store (snd (add_element 0 demo_state))) = 2 \<and>
     data_elements s1 =
       [JObj [(''id'', JStr ''id''), (''type'', JStr ''rectangle'')],
        JObj [(''id'', JStr ''id+''), (''type'', JStr ''rectangle'')],
        JObj [(''id'', JStr ''id''), (''type'', JStr ''rectangle'')]] \<and>
     count_list (data_elements s1)
       (demo_export (store (snd (add_element 0 demo_state)) ! 0)) = 2"
proof -
  let ?s = "snd (add_element 0 demo_state)"
  have v: "\<forall>r \<in> set (draw_objs ?s). r < length (store ?s)"
    by (simp add: demo_state_def add_element_def)
  have m: "map (\<lambda>r. demo_export (store ?s ! r)) (draw_objs ?s) =
       [JObj [(''id'', JStr ''id''), (''type'', JStr ''rectangle'')],
        JObj [(''id'', JStr ''id+''), (''type'', JStr ''rectangle'')],
        JObj [(''id'', JStr ''id''), (''type'', JStr ''rectangle'')]]"
    by (simp add: demo_state_def demo_export_def demo_rect_def add_element_def)
  have d: "data_elements ?s = []" by (simp add: demo_state_def add_element_def)
  have o: "draw_objs ?s = [0, 1, 0]" "length (store ?s) = 2"
    by (simp_all add: demo_state_def add_element_def)
  have x: "demo_export (store ?s ! 0) = JObj [(''id'', JStr ''id''), (''type'', JStr ''rectangle'')]"
    by (simp add: demo_state_def demo_export_def demo_rect_def add_element_def)
  from export_to_file_ok [OF v, of demo_export "''sketch''"]
  obtain s1 where
    e1: "export_to_file demo_export ''sketch'' ?s = Inr s1" and
    d1: "data_elements s1 = data_elements ?s @
           map (\<lambda>r. demo_export (store ?s ! r)) (draw_objs ?s)"
    by blast
  from d1 have "data_elements s1 =
       [JObj [(''id'', JStr ''id''), (''type'', JStr ''rectangle'')],
        JObj [(''id'', JStr ''id+''), (''type'', JStr ''rectangle'')],
        JObj [(''id'', JStr ''id''), (''type'', JStr ''rectangle'')]]"
    by (simp only: m d append_Nil)
  with e1 o x show ?thesis by (intro exI [of _ s1]) simp
qed

subsection \<open>What the creation methods register\<close>

text \<open>
  Each creation method that succeeds registers what it creates once, under a
  reference that was not registered before: the registrations of a builder on
  which \<^verbatim>\<open>add_element\<close> is never called directly are live and pairwise distinct.
\<close>

lemma fresh_registration:
  assumes "\<forall>r \<in> set (draw_objs s). r < length (store s)"
    and "draw_objs s' = draw_objs s @ [length (store s)]"
    and "length (store s') = Suc (length (store s))"
  shows "(\<forall>r \<in> set (draw_objs s'). r < length (store s')) \<and>
         (distinct (draw_objs s) \<longrightarrow> distinct (draw_objs s')) \<and>
         count_list (draw_objs s') (length (store s)) = 1"
proof -
  from assms(1) have n: "length (store s) \<notin> set (draw_objs s)" by auto
  then have "count_list (draw_objs s) (length (store s)) = 0" by (simp add: count_list_0_iff)
  with assms n show ?thesis by (auto simp: less_Suc_eq)
qed

lemma shapes_register:
  assumes "Rectangle x y w h kwargs s = Inr (r, s') \<or> Diamond x y w h kwargs s = Inr (r, s') \<or>
           Ellipse x y w h kwargs s = Inr (r, s')"
  shows "r = length (store s) \<and> draw_objs s' = draw_objs s @ [length (store s)] \<and>
         length (store s') = Suc (length (store s))"
  using assms
  by (auto simp: Rectangle_def Diamond_def Ellipse_def Shape_init_def fresh_uuid_def alloc_def
      add_element_def Let_def split: if_splits)

lemma Text_registers:
  assumes "Text text_extent txt x y kwargs s = Inr (r, s')"
  shows "r = length (store s) \<and> draw_objs s' = draw_objs s @ [length (store s)] \<and>
         length (store s') = Suc (length (store s))"
  using assms
  by (auto simp: Text_def Text_init_def fresh_uuid_def alloc_def add_element_def Let_def
      split_def split: if_splits)

lemma lines_register:
  assumes "Line start_pt end_pt kwargs s = Inr (r, s') \<or>
           Arrow start_pt end_pt kwargs s = Inr (r, s') \<or>
           DoubleArrow start_pt end_pt kwargs s = Inr (r, s')"
  shows "r = length (store s) \<and> draw_objs s' = draw_objs s @ [length (store s)] \<and>
         length (store s') = Suc (length (store s))"
  using assms
  by (auto simp: Line_def Arrow_def DoubleArrow_def Line_init_def fresh_uuid_def alloc_def
      add_element_def Let_def split: if_splits)

lemma create_bounding_element_registers:
  assumes "create_bounding_element element function padding kwargs s = Inr (r, s')"
  shows "r = length (store s) \<and> draw_objs s' = draw_objs s @ [length (store s)] \<and>
         length (store s') = Suc (length (store s))"
proof -
  let ?f = "case function of None \<Rightarrow> FRectangle | Some f \<Rightarrow> f"
  from assms obtain el b s1 where
    c: "call_shape ?f (fst (center el)) (snd (center el)) (width el + 2 * padding)
          (height el + 2 * padding) kwargs s = Inr (b, s1)"
    and r: "r = b"
    and s': "s' = modify b (\<lambda>p. p\<lparr>groupIds := groupIds p @ [fst (fresh_uuid s1)]\<rparr>)
                   (modify element (\<lambda>p. p\<lparr>groupIds := groupIds p @ [fst (fresh_uuid s1)]\<rparr>)
                      (snd (fresh_uuid s1)))"
    by (auto simp: create_bounding_element_def Let_def split_def
        split: if_splits sum.splits)
  from c have "b = length (store s) \<and> draw_objs s1 = draw_objs s @ [length (store s)] \<and>
         length (store s1) = Suc (length (store s))"
    by (cases ?f) (auto dest: shapes_register [OF disjI1]
        shapes_register [OF disjI2, OF disjI1] shapes_register [OF disjI2, OF disjI2])
  then show ?thesis
    by (simp add: r s' modify_def fresh_uuid_def)
qed

lemma call_arrow_registers:
  assumes "call_arrow f start_pt end_pt kwargs s = Inr (r, s')"
  shows "r = length (store s) \<and> draw_objs s' = draw_objs s @ [length (store s)] \<and>
         length (store s') = Suc (length (store s))"
proof (cases f)
  case FArrow
  with assms have "Arrow start_pt end_pt kwargs s = Inr (r, s')" by simp
  then show ?thesis by (rule lines_register [OF disjI2, OF disjI1])
next
  case FDoubleArrow
  with assms have "DoubleArrow start_pt end_pt kwargs s = Inr (r, s')" by simp
  then show ?thesis by (rule lines_register [OF disjI2, OF disjI2])
qed

lemma create_binding_arrows_registers:
  assumes "create_binding_arrows rnd atan2f get_edge_midpoint start end' arrow padding kwargs s =
             Inr (r, s')"
  shows "r = None \<and> draw_objs s' = draw_objs s @ [length (store s)] \<and>
         length (store s') = Suc (length (store s))"
  using assms
  by (auto simp: create_binding_arrows_def Let_def split_def set_start_binding_def
      set_end_binding_def modify_def split: if_splits sum.splits dest!: call_arrow_registers)

lemma TextBox_registers:
  assumes "TextBox text_extent txt x y txt_kwargs rect_kwargs s = Inr (r, s')"
  shows "r = Suc (length (store s)) \<and>
         draw_objs s' = draw_objs s @ [length (store s), Suc (length (store s))] \<and>
         length (store s') = Suc (Suc (length (store s)))"
proof -
  from assms obtain t s1 pad kw where
    t: "Text text_extent txt x y (case txt_kwargs of None \<Rightarrow> Map.empty | Some k \<Rightarrow> k) s =
          Inr (t, s1)"
    and b: "create_bounding_element t (Some FRectangle) pad kw s1 = Inr (r, s')"
    by (auto simp: TextBox_def Let_def split: sum.splits option.splits)
  from Text_registers [OF t] create_bounding_element_registers [OF b]
  show ?thesis by simp
qed

section \<open>Binding arrows\<close>

subsection \<open>The angles handed to the edge geometry\<close>

lemma math_pi_pos: "0 < math_pi"
  by (simp add: math_pi_def)

lemma c_fmod_small: "0 < m \<Longrightarrow> \<bar>a\<bar> < m \<Longrightarrow> c_fmod a m = a"
proof -
  assume m: "0 < m" and a: "\<bar>a\<bar> < m"
  then have q: "- 1 < a / m" "a / m < 1" by (simp_all add: pos_less_divide_eq pos_divide_less_eq)
  show ?thesis
  proof (cases "0 \<le> a / m")
    case True
    with q have "\<lfloor>a / m\<rfloor> = 0" by (simp add: floor_eq_iff)
    with True show ?thesis by (simp add: c_fmod_def)
  next
    case False
    with q have "\<lceil>a / m\<rceil> = 0" by (simp add: ceiling_eq_iff)
    with False show ?thesis by (simp add: c_fmod_def)
  qed
qed


lemma py_mod_Inr: "m \<noteq> 0 \<Longrightarrow> \<exists>r. py_mod rnd a m = Inr r"
  by (simp add: py_mod_def Let_def)

lemma py_mod_nonneg: "0 \<le> a \<Longrightarrow> a < m \<Longrightarrow> py_mod rnd a m = Inr a"
proof -
  assume a: "0 \<le> a" "a < m"
  then have "c_fmod a m = a" by (intro c_fmod_small) simp_all
  with a show ?thesis by (auto simp: py_mod_def Let_def)
qed



lemma binding_angles_total:
  "\<exists>theta inverted_theta.
     binding_angles rnd atan2f center_start center_end = Inr (theta, inverted_theta)"
proof -
  have nz: "2 * math_pi \<noteq> 0" using math_pi_pos by simp
  obtain r1 where r1: "py_mod rnd
      (rnd (atan2f (snd center_end - snd center_start) (fst center_end - fst center_start)
            + math_pi)) (2 * math_pi) = Inr r1"
    using py_mod_Inr [OF nz] by blast
  obtain r2 where r2: "py_mod rnd (rnd (r1 - math_pi)) (2 * math_pi) = Inr r2"
    using py_mod_Inr [OF nz] by blast
  show ?thesis by (simp add: binding_angles_def Let_def r1 r2)
qed


lemma demo_rnd_fix:
  "demo_rnd 0 = 0" "demo_rnd math_pi = math_pi" "demo_rnd (- math_pi) = - math_pi"
  "demo_rnd (2 * math_pi) = 2 * math_pi"
  by (simp_all add: demo_rnd_def math_pi_def)


text \<open>
  The scenario of the spec: between the rectangles at \<open>(100, 100)\<close> and
  \<open>(300, 100)\<close> the angles are \<open>0\<close> and \<^verbatim>\<open>-math.pi\<close>.
\<close>

lemma demo_binding_angles:
  "binding_angles demo_rnd demo_atan2 (center (store demo_state ! 0))
     (center (store demo_state ! 1)) = Inr (0, - math_pi)"
proof -
  have pos: "0 < math_pi" by (rule math_pi_pos)
  have a: "demo_atan2 0 200 = 0" by (simp add: demo_atan2_def)
  have "0 \<le> math_pi" "math_pi < 2 * math_pi" using pos by simp_all
  from py_mod_nonneg [OF this] have m1: "py_mod demo_rnd math_pi (2 * math_pi) = Inr math_pi" .
  have "(0 :: real) \<le> 0" "0 < 2 * math_pi" using pos by simp_all
  from py_mod_nonneg [OF this] have m2: "py_mod demo_rnd 0 (2 * math_pi) = Inr 0" .
  show ?thesis
    by (simp add: binding_angles_def Let_def demo_state_def demo_rect_def center_def a
        demo_rnd_fix m1 m2)
qed




section \<open>Creating primitives and bounding elements\<close>

subsection \<open>What the creation methods return\<close>

lemma Rectangle_ok:
  assumes "\<not> kw_clash [''self'', ''x'', ''y'', ''width'', ''height''] kwargs"
  shows "Rectangle x y w h kwargs s =
     Inr (length (store s),
          s\<lparr>draw_objs := draw_objs s @ [length (store s)],
            store := store s @
              [\<lparr>cls = ShapeC, prim_id = uuid4 s (uuid_calls s), excal_type = ''rectangle'',
                prim_x = x, prim_y = y, width = w, height = h,
                style = BOX_DEFAULTS s ++ kwargs, groupIds = [],
                prim_text = [], points = [], startBinding = None, endBinding = None\<rparr>],
            uuid_calls := Suc (uuid_calls s)\<rparr>)"
  using assms
  by (simp add: Rectangle_def Shape_init_def fresh_uuid_def alloc_def add_element_def Let_def)

lemma Text_ok:
  assumes "\<not> kw_clash [''self'', ''text'', ''x'', ''y''] kwargs"
  shows "Text text_extent txt x y kwargs s =
     Inr (length (store s),
          s\<lparr>draw_objs := draw_objs s @ [length (store s)],
            store := store s @
              [\<lparr>cls = TextC, prim_id = uuid4 s (uuid_calls s), excal_type = ''text'',
                prim_x = x, prim_y = y, width = fst (text_extent txt kwargs),
                height = snd (text_extent txt kwargs),
                style = TEXT_DEFAULTS s ++ kwargs, groupIds = [],
                prim_text = txt, points = [], startBinding = None, endBinding = None\<rparr>],
            uuid_calls := Suc (uuid_calls s)\<rparr>)"
  using assms
  by (simp add: Text_def Text_init_def fresh_uuid_def alloc_def add_element_def Let_def
      split_def)

lemma kw_clash_empty: "\<not> kw_clash names Map.empty"
  by (simp add: kw_clash_def list_ex_iff)

text \<open>The demo state is the one the builder reaches by two calls of \<^verbatim>\<open>Rectangle\<close>.\<close>

lemma demo_state_reachable:
  "\<exists>s0 s1. SketchBuilder_init demo_box demo_line demo_text [] blank_state = Inr s0 \<and>
     Rectangle 100 100 50 50 Map.empty s0 = Inr (0, s1) \<and>
     Rectangle 300 100 50 50 Map.empty s1 = Inr (1, demo_state)"
  by (simp add: SketchBuilder_init_def blank_state_def Rectangle_ok [OF kw_clash_empty]
      demo_state_def demo_rect_def demo_uuid4_def)

subsection \<open>Bounding elements\<close>

lemma create_bounding_element_rect:
  assumes valid: "element < length (store s)"
    and k1: "\<not> kw_clash [''self'', ''element'', ''function'', ''padding''] kwargs"
    and k2: "\<not> kw_clash [''self'', ''x'', ''y'', ''width'', ''height''] kwargs"
    and f: "function = None \<or> function = Some FRectangle"
  shows "\<exists>s'. create_bounding_element element function padding kwargs s =
             Inr (length (store s), s') \<and>
     draw_objs s' = draw_objs s @ [length (store s)] \<and>
     uuid_calls s' = Suc (Suc (uuid_calls s)) \<and>
     store s' = (store s)[element :=
                  (store s ! element)\<lparr>groupIds := groupIds (store s ! element) @
                                          [uuid4 s (Suc (uuid_calls s))]\<rparr>] @
        [\<lparr>cls = ShapeC, prim_id = uuid4 s (uuid_calls s), excal_type = ''rectangle'',
          prim_x = prim_x (store s ! element), prim_y = prim_y (store s ! element),
          width = width (store s ! element) + 2 * padding,
          height = height (store s ! element) + 2 * padding,
          style = BOX_DEFAULTS s ++ kwargs, groupIds = [uuid4 s (Suc (uuid_calls s))],
          prim_text = [], points = [], startBinding = None, endBinding = None\<rparr>] \<and>
     data_elements s' = data_elements s \<and> BOX_DEFAULTS s' = BOX_DEFAULTS s \<and>
     LINE_DEFAULTS s' = LINE_DEFAULTS s \<and> TEXT_DEFAULTS s' = TEXT_DEFAULTS s \<and>
     uuid4 s' = uuid4 s \<and> files s' = files s"
proof -
  have cs: "call_shape (case function of None \<Rightarrow> FRectangle | Some f \<Rightarrow> f) = Rectangle"
    using f by auto
  show ?thesis
    using valid k1
    by (simp add: create_bounding_element_def cs Rectangle_ok [OF k2] deref_def center_def
        fresh_uuid_def modify_def Let_def nth_append list_update_append)
qed

text \<open>
  Claim C1. For every live primitive \<open>E\<close> (in particular every registered one)
  and every padding, \<^verbatim>\<open>create_bounding_element\<close> with the default factory and
  keywords that repeat no parameter name returns a new rectangle, registered
  last, whose width and height are those of \<open>E\<close> plus twice the padding and
  whose centre is the centre of \<open>E\<close>; the identifier drawn from the generator
  during the call is appended to the group ids of \<open>E\<close> (nothing else of \<open>E\<close>
  changes) and is the only group id of the rectangle, hence the only one the
  two have in common; no other primitive changes.
\<close>

theorem create_bounding_element_default:
  assumes "element < length (store s)"
    and "\<not> kw_clash [''self'', ''element'', ''function'', ''padding''] kwargs"
    and "\<not> kw_clash [''self'', ''x'', ''y'', ''width'', ''height''] kwargs"
  shows "\<exists>s'. create_bounding_element element None padding kwargs s =
               Inr (length (store s), s') \<and>
       draw_objs s' = draw_objs s @ [length (store s)] \<and>
       length (store s') = Suc (length (store s)) \<and>
       (let E = store s ! element; E' = store s' ! element;
            R = store s' ! length (store s);
            group_id = uuid4 s (Suc (uuid_calls s))
        in cls R = ShapeC \<and> excal_type R = ''rectangle'' \<and>
           width R = width E + 2 * padding \<and> height R = height E + 2 * padding \<and>
           center R = center E \<and>
           E' = E\<lparr>groupIds := groupIds E @ [group_id]\<rparr> \<and>
           groupIds R = [group_id] \<and>
           set (groupIds E') \<inter> set (groupIds R) = {group_id}) \<and>
       uuid_calls s' = uuid_calls s + 2 \<and>
       (\<forall>r < length (store s). r \<noteq> element \<longrightarrow> store s' ! r = store s ! r)"
proof -
  from create_bounding_element_rect [OF assms, of None padding] obtain s' where
    res: "create_bounding_element element None padding kwargs s = Inr (length (store s), s')"
    and objs: "draw_objs s' = draw_objs s @ [length (store s)]"
    and calls: "uuid_calls s' = Suc (Suc (uuid_calls s))"
    and st: "store s' = (store s)[element :=
                  (store s ! element)\<lparr>groupIds := groupIds (store s ! element) @
                                          [uuid4 s (Suc (uuid_calls s))]\<rparr>] @
        [\<lparr>cls = ShapeC, prim_id = uuid4 s (uuid_calls s), excal_type = ''rectangle'',
          prim_x = prim_x (store s ! element), prim_y = prim_y (store s ! element),
          width = width (store s ! element) + 2 * padding,
          height = height (store s ! element) + 2 * padding,
          style = BOX_DEFAULTS s ++ kwargs, groupIds = [uuid4 s (Suc (uuid_calls s))],
          prim_text = [], points = [], startBinding = None, endBinding = None\<rparr>]"
    by blast
  have len: "length (store s') = Suc (length (store s))" by (simp add: st)
  have new: "store s' ! length (store s) =
        \<lparr>cls = ShapeC, prim_id = uuid4 s (uuid_calls s), excal_type = ''rectangle'',
          prim_x = prim_x (store s ! element), prim_y = prim_y (store s ! element),
          width = width (store s ! element) + 2 * padding,
          height = height (store s ! element) + 2 * padding,
          style = BOX_DEFAULTS s ++ kwargs, groupIds = [uuid4 s (Suc (uuid_calls s))],
          prim_text = [], points = [], startBinding = None, endBinding = None\<rparr>"
    by (simp add: st nth_append)
  have old: "store s' ! element =
       (store s ! element)\<lparr>groupIds := groupIds (store s ! element) @
                                          [uuid4 s (Suc (uuid_calls s))]\<rparr>"
    using assms(1) by (simp add: st nth_append)
  have frame: "\<forall>r < length (store s). r \<noteq> element \<longrightarrow> store s' ! r = store s ! r"
    by (simp add: st nth_append)
  have body: "(let E = store s ! element; E' = store s' ! element;
            R = store s' ! length (store s);
            group_id = uuid4 s (Suc (uuid_calls s))
        in cls R = ShapeC \<and> excal_type R = ''rectangle'' \<and>
           width R = width E + 2 * padding \<and> height R = height E + 2 * padding \<and>
           center R = center E \<and>
           E' = E\<lparr>groupIds := groupIds E @ [group_id]\<rparr> \<and>
           groupIds R = [group_id] \<and>
           set (groupIds E') \<inter> set (groupIds R) = {group_id})"
    unfolding Let_def new old by (simp add: center_def)
  from res objs len body calls frame show ?thesis by auto
qed

theorem create_bounding_element_default_witness:
  "\<exists>s'. create_bounding_element 0 None 10 Map.empty demo_state = Inr (2, s') \<and>
     draw_objs s' = [0, 1, 2] \<and>
     width (store s' ! 2) = 70 \<and> height (store s' ! 2) = 70 \<and>
     center (store s' ! 2) = (100, 100) \<and> center (store demo_state ! 0) = (100, 100) \<and>
     groupIds (store s' ! 0) = [''id+++''] \<and> groupIds (store s' ! 2) = [''id+++'']"
proof -
  have v: "0 < length (store demo_state)" by (simp add: demo_state_def)
  from create_bounding_element_default [OF v kw_clash_empty kw_clash_empty, of 10]
  obtain s' where
    res: "create_bounding_element 0 None 10 Map.empty demo_state =
            Inr (length (store demo_state), s')"
    and objs: "draw_objs s' = draw_objs demo_state @ [length (store demo_state)]"
    and body: "(let E = store demo_state ! 0; E' = store s' ! 0;
            R = store s' ! length (store demo_state);
            group_id = uuid4 demo_state (Suc (uuid_calls demo_state))
        in cls R = ShapeC \<and> excal_type R = ''rectangle'' \<and>
           width R = width E + 2 * 10 \<and> height R = height E + 2 * 10 \<and>
           center R = center E \<and>
           E' = E\<lparr>groupIds := groupIds E @ [group_id]\<rparr> \<and>
           groupIds R = [group_id] \<and>
           set (groupIds E') \<inter> set (groupIds R) = {group_id})"
    by blast
  have l: "length (store demo_state) = 2" by (simp add: demo_state_def)
  have e: "store demo_state ! 0 = demo_rect ''id'' 100" by (simp add: demo_state_def)
  have g: "uuid4 demo_state (Suc (uuid_calls demo_state)) = ''id+++''"
    by (simp add: demo_state_def demo_uuid4_def numeral_3_eq_3)
  have o: "draw_objs demo_state = [0, 1]" by (simp add: demo_state_def)
  from res objs body show ?thesis
    unfolding Let_def l e g o by (auto simp: demo_rect_def center_def)
qed

subsection \<open>Text boxes\<close>

text \<open>
  Claim C9. \<^verbatim>\<open>TextBox(text, x, y)\<close> always succeeds and registers exactly two new
  primitives, first the text element and then a rectangle, leaving every
  earlier primitive as it was; it returns the rectangle; the two have exactly
  one group id in common, the identifier drawn during the call; and with the
  default padding the rectangle is wider and higher than the text element,
  whose width and height are the extent computed for the text.
\<close>

theorem TextBox_default:
  "\<exists>s'. TextBox text_extent txt x y None None s = Inr (Suc (length (store s)), s') \<and>
     draw_objs s' = draw_objs s @ [length (store s), Suc (length (store s))] \<and>
     length (store s') = length (store s) + 2 \<and>
     take (length (store s)) (store s') = store s \<and>
     (let T = store s' ! length (store s);
          R = store s' ! Suc (length (store s));
          group_id = uuid4 s (uuid_calls s + 2)
      in cls T = TextC \<and> excal_type T = ''text'' \<and> prim_text T = txt \<and>
         (width T, height T) = text_extent txt Map.empty \<and> center T = (x, y) \<and>
         cls R = ShapeC \<and> excal_type R = ''rectangle'' \<and> center R = (x, y) \<and>
         groupIds T = [group_id] \<and> groupIds R = [group_id] \<and>
         set (groupIds T) \<inter> set (groupIds R) = {group_id} \<and>
         width R = width T + 2 * default_padding \<and>
         height R = height T + 2 * default_padding \<and>
         width T < width R \<and> height T < height R)"
proof -
  let ?n = "length (store s)"
  let ?T0 = "\<lparr>cls = TextC, prim_id = uuid4 s (uuid_calls s), excal_type = ''text'',
                prim_x = x, prim_y = y, width = fst (text_extent txt Map.empty),
                height = snd (text_extent txt Map.empty),
                style = TEXT_DEFAULTS s ++ Map.empty, groupIds = [],
                prim_text = txt, points = [], startBinding = None, endBinding = None\<rparr>"
  let ?s1 = "s\<lparr>draw_objs := draw_objs s @ [?n], store := store s @ [?T0],
               uuid_calls := Suc (uuid_calls s)\<rparr>"
  have t: "Text text_extent txt x y Map.empty s = Inr (?n, ?s1)"
    by (rule Text_ok [OF kw_clash_empty])
  have v: "?n < length (store ?s1)" by simp
  from create_bounding_element_rect [OF v kw_clash_empty kw_clash_empty,
      of "Some FRectangle" default_padding]
  obtain s' where
    res: "create_bounding_element ?n (Some FRectangle) default_padding Map.empty ?s1 =
            Inr (length (store ?s1), s')"
    and objs: "draw_objs s' = draw_objs ?s1 @ [length (store ?s1)]"
    and st: "store s' = (store ?s1)[?n :=
                  (store ?s1 ! ?n)\<lparr>groupIds := groupIds (store ?s1 ! ?n) @
                                          [uuid4 ?s1 (Suc (uuid_calls ?s1))]\<rparr>] @
        [\<lparr>cls = ShapeC, prim_id = uuid4 ?s1 (uuid_calls ?s1), excal_type = ''rectangle'',
          prim_x = prim_x (store ?s1 ! ?n), prim_y = prim_y (store ?s1 ! ?n),
          width = width (store ?s1 ! ?n) + 2 * default_padding,
          height = height (store ?s1 ! ?n) + 2 * default_padding,
          style = BOX_DEFAULTS ?s1 ++ Map.empty, groupIds = [uuid4 ?s1 (Suc (uuid_calls ?s1))],
          prim_text = [], points = [], startBinding = None, endBinding = None\<rparr>]"
    by blast
  have tb: "TextBox text_extent txt x y None None s = Inr (Suc ?n, s')"
    using res by (simp add: TextBox_def t)
  have o: "draw_objs s' = draw_objs s @ [?n, Suc ?n]" using objs by simp
  have st': "store s' = store s @
       [?T0\<lparr>groupIds := [uuid4 s (Suc (Suc (uuid_calls s)))]\<rparr>,
        \<lparr>cls = ShapeC, prim_id = uuid4 s (Suc (uuid_calls s)), excal_type = ''rectangle'',
          prim_x = x, prim_y = y,
          width = fst (text_extent txt Map.empty) + 2 * default_padding,
          height = snd (text_extent txt Map.empty) + 2 * default_padding,
          style = BOX_DEFAULTS s, groupIds = [uuid4 s (Suc (Suc (uuid_calls s)))],
          prim_text = [], points = [], startBinding = None, endBinding = None\<rparr>]"
    unfolding st by (simp add: list_update_append)
  have len: "length (store s') = ?n + 2" by (simp add: st')
  have tk: "take ?n (store s') = store s" by (simp add: st')
  have nT: "store s' ! ?n = ?T0\<lparr>groupIds := [uuid4 s (Suc (Suc (uuid_calls s)))]\<rparr>"
    by (simp add: st' nth_append)
  have nR: "store s' ! Suc ?n =
        \<lparr>cls = ShapeC, prim_id = uuid4 s (Suc (uuid_calls s)), excal_type = ''rectangle'',
          prim_x = x, prim_y = y,
          width = fst (text_extent txt Map.empty) + 2 * default_padding,
          height = snd (text_extent txt Map.empty) + 2 * default_padding,
          style = BOX_DEFAULTS s, groupIds = [uuid4 s (Suc (Suc (uuid_calls s)))],
          prim_text = [], points = [], startBinding = None, endBinding = None\<rparr>"
    by (simp add: st' nth_append)
  have body: "(let T = store s' ! length (store s);
          R = store s' ! Suc (length (store s));
          group_id = uuid4 s (uuid_calls s + 2)
      in cls T = TextC \<and> excal_type T = ''text'' \<and> prim_text T = txt \<and>
         (width T, height T) = text_extent txt Map.empty \<and> center T = (x, y) \<and>
         cls R = ShapeC \<and> excal_type R = ''rectangle'' \<and> center R = (x, y) \<and>
         groupIds T = [group_id] \<and> groupIds R = [group_id] \<and>
         set (groupIds T) \<inter> set (groupIds R) = {group_id} \<and>
         width R = width T + 2 * default_padding \<and>
         height R = height T + 2 * default_padding \<and>
         width T < width R \<and> height T < height R)"
    unfolding Let_def nT nR by (simp add: center_def default_padding_def)
  from tb o len tk body show ?thesis by blast
qed

theorem TextBox_default_witness:
  "\<exists>s'. TextBox demo_extent ''Hello'' 0 0 None None demo_state = Inr (3, s') \<and>
     draw_objs s' = [0, 1, 2, 3] \<and>
     cls (store s' ! 2) = TextC \<and> cls (store s' ! 3) = ShapeC \<and>
     width (store s' ! 2) = 50 \<and> height (store s' ! 2) = 25 \<and>
     width (store s' ! 3) = 70 \<and> height (store s' ! 3) = 45 \<and>
     groupIds (store s' ! 2) = [''id++++''] \<and> groupIds (store s' ! 3) = [''id++++'']"
proof -
  have l: "length (store demo_state) = 2" by (simp add: demo_state_def)
  have o: "draw_objs demo_state = [0, 1]" by (simp add: demo_state_def)
  have g: "uuid4 demo_state (uuid_calls demo_state + 2) = ''id++++''"
    by (simp add: demo_state_def demo_uuid4_def eval_nat_numeral)
  have x: "demo_extent ''Hello'' Map.empty = (50, 25)" by (simp add: demo_extent_def)
  have three: "Suc (2 :: nat) = 3" by simp
  from TextBox_default [of demo_extent "''Hello''" 0 0 demo_state]
  obtain s' where
    res: "TextBox demo_extent ''Hello'' 0 0 None None demo_state =
            Inr (Suc (length (store demo_state)), s')"
    and objs: "draw_objs s' =
            draw_objs demo_state @ [length (store demo_state), Suc (length (store demo_state))]"
    and body: "(let T = store s' ! length (store demo_state);
          R = store s' ! Suc (length (store demo_state));
          group_id = uuid4 demo_state (uuid_calls demo_state + 2)
      in cls T = TextC \<and> excal_type T = ''text'' \<and> prim_text T = ''Hello'' \<and>
         (width T, height T) = demo_extent ''Hello'' Map.empty \<and> center T = (0, 0) \<and>
         cls R = ShapeC \<and> excal_type R = ''rectangle'' \<and> center R = (0, 0) \<and>
         groupIds T = [group_id] \<and> groupIds R = [group_id] \<and>
         set (groupIds T) \<inter> set (groupIds R) = {group_id} \<and>
         width R = width T + 2 * default_padding \<and>
         height R = height T + 2 * default_padding \<and>
         width T < width R \<and> height T < height R)"
    by blast
  from body have
    b: "cls (store s' ! 2) = TextC" "cls (store s' ! 3) = ShapeC"
       "width (store s' ! 2) = 50" "height (store s' ! 2) = 25"
       "width (store s' ! 3) = width (store s' ! 2) + 2 * 10"
       "height (store s' ! 3) = height (store s' ! 2) + 2 * 10"
       "groupIds (store s' ! 2) = [''id++++'']" "groupIds (store s' ! 3) = [''id++++'']"
    unfolding Let_def l three g x default_padding_def by simp_all
  from res have r: "TextBox demo_extent ''Hello'' 0 0 None None demo_state = Inr (3, s')"
    unfolding l three .
  from objs have ob: "draw_objs s' = [0, 1, 2, 3]"
    unfolding l three o by simp
  from b have "width (store s' ! 3) = 70" "height (store s' ! 3) = 45" by simp_all
  with r ob b show ?thesis by blast
qed

subsection \<open>Lines and arrows\<close>

lemma Line_ok:
  assumes "\<not> kw_clash [''self'', ''start_pt'', ''end_pt''] kwargs"
  shows "Line start_pt end_pt kwargs s =
     Inr (length (store s),
          s\<lparr>draw_objs := draw_objs s @ [length (store s)],
            store := store s @
              [\<lparr>cls = LineC, prim_id = uuid4 s (uuid_calls s), excal_type = ''line'',
                prim_x = fst start_pt, prim_y = snd start_pt,
                width = \<bar>fst end_pt - fst start_pt\<bar>, height = \<bar>snd end_pt - snd start_pt\<bar>,
                style = LINE_DEFAULTS s ++ kwargs, groupIds = [],
                prim_text = [],
                points = [(0, 0), (fst end_pt - fst start_pt, snd end_pt - snd start_pt)],
                startBinding = None, endBinding = None\<rparr>],
            uuid_calls := Suc (uuid_calls s)\<rparr>)"
  using assms
  by (simp add: Line_def Line_init_def fresh_uuid_def alloc_def add_element_def Let_def)

lemma Arrow_ok:
  assumes "\<not> kw_clash [''self'', ''start_pt'', ''end_pt''] kwargs"
  shows "Arrow start_pt end_pt kwargs s =
     Inr (length (store s),
          s\<lparr>draw_objs := draw_objs s @ [length (store s)],
            store := store s @
              [\<lparr>cls = LineC, prim_id = uuid4 s (uuid_calls s), excal_type = ''arrow'',
                prim_x = fst start_pt, prim_y = snd start_pt,
                width = \<bar>fst end_pt - fst start_pt\<bar>, height = \<bar>snd end_pt - snd start_pt\<bar>,
                style = LINE_DEFAULTS s ++ kwargs(''endArrowhead'' \<mapsto> JStr ''arrow''),
                groupIds = [], prim_text = [],
                points = [(0, 0), (fst end_pt - fst start_pt, snd end_pt - snd start_pt)],
                startBinding = None, endBinding = None\<rparr>],
            uuid_calls := Suc (uuid_calls s)\<rparr>)"
  using assms
  by (simp add: Arrow_def Line_init_def fresh_uuid_def alloc_def add_element_def Let_def)

lemma kw_clash_upd:
  "k \<notin> set names \<Longrightarrow> kw_clash names (kwargs(k \<mapsto> v)) = kw_clash names kwargs"
  by (auto simp: kw_clash_def list_ex_iff)

lemma DoubleArrow_ok:
  assumes "\<not> kw_clash [''self'', ''start_pt'', ''end_pt''] kwargs"
  shows "DoubleArrow start_pt end_pt kwargs s =
     Inr (length (store s),
          s\<lparr>draw_objs := draw_objs s @ [length (store s)],
            store := store s @
              [\<lparr>cls = LineC, prim_id = uuid4 s (uuid_calls s), excal_type = ''arrow'',
                prim_x = fst start_pt, prim_y = snd start_pt,
                width = \<bar>fst end_pt - fst start_pt\<bar>, height = \<bar>snd end_pt - snd start_pt\<bar>,
                style = LINE_DEFAULTS s ++
                  kwargs(''startArrowhead'' \<mapsto> JStr ''arrow'', ''endArrowhead'' \<mapsto> JStr ''arrow''),
                groupIds = [], prim_text = [],
                points = [(0, 0), (fst end_pt - fst start_pt, snd end_pt - snd start_pt)],
                startBinding = None, endBinding = None\<rparr>],
            uuid_calls := Suc (uuid_calls s)\<rparr>)"
proof -
  have "\<not> kw_clash [''self'', ''start_pt'', ''end_pt'']
          (kwargs(''startArrowhead'' \<mapsto> JStr ''arrow''))"
    using assms by (simp add: kw_clash_upd)
  from Arrow_ok [OF this] show ?thesis using assms by (simp add: DoubleArrow_def)
qed

text \<open>
  Claim C8. On the same arguments \<^verbatim>\<open>Line\<close>, \<^verbatim>\<open>Arrow\<close> and \<^verbatim>\<open>DoubleArrow\<close> each
  register one new primitive of the one line class, and the three differ in
  the type tag and the arrowhead entries only: the line carries the defaults
  overridden by the caller's keywords and nothing else; the arrow is that
  line with the tag \<^verbatim>\<open>arrow\<close> and the end arrowhead set to \<^verbatim>\<open>arrow\<close>, its start
  arrowhead being whatever the line has; the double arrow is that line with
  the tag \<^verbatim>\<open>arrow\<close> and both arrowheads set to \<^verbatim>\<open>arrow\<close>, whatever the caller
  supplied for them.
\<close>

theorem line_arrow_variants:
  assumes "\<not> kw_clash [''self'', ''start_pt'', ''end_pt''] kwargs"
  shows "\<exists>sl sa sd.
     Line start_pt end_pt kwargs s = Inr (length (store s), sl) \<and>
     Arrow start_pt end_pt kwargs s = Inr (length (store s), sa) \<and>
     DoubleArrow start_pt end_pt kwargs s = Inr (length (store s), sd) \<and>
     draw_objs sl = draw_objs s @ [length (store s)] \<and>
     draw_objs sa = draw_objs s @ [length (store s)] \<and>
     draw_objs sd = draw_objs s @ [length (store s)] \<and>
     (let l = store sl ! length (store s);
          a = store sa ! length (store s);
          d = store sd ! length (store s)
      in cls l = LineC \<and> cls a = LineC \<and> cls d = LineC \<and>
         excal_type l = ''line'' \<and> excal_type a = ''arrow'' \<and> excal_type d = ''arrow'' \<and>
         style l = LINE_DEFAULTS s ++ kwargs \<and>
         a = l\<lparr>excal_type := ''arrow'',
               style := (style l)(''endArrowhead'' \<mapsto> JStr ''arrow'')\<rparr> \<and>
         d = l\<lparr>excal_type := ''arrow'',
               style := (style l)(''startArrowhead'' \<mapsto> JStr ''arrow'',
                                  ''endArrowhead'' \<mapsto> JStr ''arrow'')\<rparr> \<and>
         style a ''endArrowhead'' = Some (JStr ''arrow'') \<and>
         style a ''startArrowhead'' = style l ''startArrowhead'' \<and>
         style d ''startArrowhead'' = Some (JStr ''arrow'') \<and>
         style d ''endArrowhead'' = Some (JStr ''arrow''))"
  unfolding Line_ok [OF assms] Arrow_ok [OF assms] DoubleArrow_ok [OF assms]
  by (simp add: Let_def)

theorem line_arrow_variants_witness:
  "\<exists>sl sa sd.
     Line (0, 0) (30, 40) [''endArrowhead'' \<mapsto> JStr ''dot''] demo_state = Inr (2, sl) \<and>
     Arrow (0, 0) (30, 40) [''endArrowhead'' \<mapsto> JStr ''dot''] demo_state = Inr (2, sa) \<and>
     DoubleArrow (0, 0) (30, 40) [''endArrowhead'' \<mapsto> JStr ''dot''] demo_state = Inr (2, sd) \<and>
     cls (store sl ! 2) = LineC \<and> cls (store sa ! 2) = LineC \<and> cls (store sd ! 2) = LineC \<and>
     style (store sl ! 2) ''endArrowhead'' = Some (JStr ''dot'') \<and>
     style (store sl ! 2) ''startArrowhead'' = None \<and>
     style (store sa ! 2) ''endArrowhead'' = Some (JStr ''arrow'') \<and>
     style (store sa ! 2) ''startArrowhead'' = None \<and>
     style (store sd ! 2) ''endArrowhead'' = Some (JStr ''arrow'') \<and>
     style (store sd ! 2) ''startArrowhead'' = Some (JStr ''arrow'')"
proof -
  have k: "\<not> kw_clash [''self'', ''start_pt'', ''end_pt''] [''endArrowhead'' \<mapsto> JStr ''dot'']"
    by (simp add: kw_clash_def)
  have l: "length (store demo_state) = 2" by (simp add: demo_state_def)
  have ld: "LINE_DEFAULTS demo_state = demo_box ++ demo_line" by (simp add: demo_state_def)
  from line_arrow_variants [OF k, of "(0, 0)" "(30, 40)" demo_state]
  obtain sl sa sd where
    r: "Line (0, 0) (30, 40) [''endArrowhead'' \<mapsto> JStr ''dot''] demo_state = Inr (2, sl)"
       "Arrow (0, 0) (30, 40) [''endArrowhead'' \<mapsto> JStr ''dot''] demo_state = Inr (2, sa)"
       "DoubleArrow (0, 0) (30, 40) [''endArrowhead'' \<mapsto> JStr ''dot''] demo_state = Inr (2, sd)"
    and c: "cls (store sl ! 2) = LineC" "cls (store sa ! 2) = LineC" "cls (store sd ! 2) = LineC"
    and sty: "style (store sl ! 2) = demo_box ++ demo_line ++ [''endArrowhead'' \<mapsto> JStr ''dot'']"
       "style (store sa ! 2) ''endArrowhead'' = Some (JStr ''arrow'')"
       "style (store sa ! 2) ''startArrowhead'' = style (store sl ! 2) ''startArrowhead''"
       "style (store sd ! 2) ''startArrowhead'' = Some (JStr ''arrow'')"
       "style (store sd ! 2) ''endArrowhead'' = Some (JStr ''arrow'')"
    unfolding l ld Let_def by blast
  have "style (store sl ! 2) ''endArrowhead'' = Some (JStr ''dot'')"
       "style (store sl ! 2) ''startArrowhead'' = None"
    unfolding sty(1) by (simp_all add: demo_box_def demo_line_def)
  with r c sty show ?thesis by simp
qed

subsection \<open>The arrow created by \<^verbatim>\<open>create_binding_arrows\<close>\<close>

lemma call_arrow_ok:
  assumes "\<not> kw_clash [''self'', ''start_pt'', ''end_pt''] kwargs"
  shows "call_arrow (case arrow of None \<Rightarrow> FArrow | Some f \<Rightarrow> f) start_pt end_pt kwargs s =
     Inr (length (store s),
          s\<lparr>draw_objs := draw_objs s @ [length (store s)],
            store := store s @
              [\<lparr>cls = LineC, prim_id = uuid4 s (uuid_calls s), excal_type = ''arrow'',
                prim_x = fst start_pt, prim_y = snd start_pt,
                width = \<bar>fst end_pt - fst start_pt\<bar>, height = \<bar>snd end_pt - snd start_pt\<bar>,
                style = LINE_DEFAULTS s ++
                  (case arrow of
                     Some FDoubleArrow \<Rightarrow>
                       kwargs(''startArrowhead'' \<mapsto> JStr ''arrow'',
                              ''endArrowhead'' \<mapsto> JStr ''arrow'')
                   | _ \<Rightarrow> kwargs(''endArrowhead'' \<mapsto> JStr ''arrow'')),
                groupIds = [], prim_text = [],
                points = [(0, 0), (fst end_pt - fst start_pt, snd end_pt - snd start_pt)],
                startBinding = None, endBinding = None\<rparr>],
            uuid_calls := Suc (uuid_calls s)\<rparr>)"
proof (cases arrow)
  case None
  then show ?thesis by (simp add: Arrow_ok [OF assms])
next
  case (Some f)
  then show ?thesis
    by (cases f) (simp_all add: Arrow_ok [OF assms] DoubleArrow_ok [OF assms])
qed

lemma create_binding_arrows_ok:
  assumes vs: "start < length (store s)" and ve: "end' < length (store s)"
    and k1: "\<not> kw_clash [''self'', ''start'', ''end'', ''arrow'', ''padding''] kwargs"
    and k2: "\<not> kw_clash [''self'', ''start_pt'', ''end_pt''] kwargs"
  shows "\<exists>s' line theta inverted_theta.
     create_binding_arrows rnd atan2f get_edge_midpoint start end' arrow padding kwargs s =
       Inr (None, s') \<and>
     binding_angles rnd atan2f (center (store s ! start)) (center (store s ! end')) =
       Inr (theta, inverted_theta) \<and>
     draw_objs s' = draw_objs s @ [length (store s)] \<and>
     store s' = store s @ [line] \<and>
     cls line = LineC \<and> excal_type line = ''arrow'' \<and>
     prim_id line = uuid4 s (uuid_calls s) \<and>
     groupIds line = [] \<and>
     (prim_x line, prim_y line) = get_edge_midpoint (store s ! start) theta padding \<and>
     (prim_x line + fst (points line ! 1), prim_y line + snd (points line ! 1)) =
        get_edge_midpoint (store s ! end') inverted_theta padding \<and>
     startBinding line = Some \<lparr>elementId = prim_id (store s ! start), gap = padding\<rparr> \<and>
     endBinding line = Some \<lparr>elementId = prim_id (store s ! end'), gap = padding\<rparr> \<and>
     uuid_calls s' = Suc (uuid_calls s) \<and>
     data_elements s' = data_elements s \<and> BOX_DEFAULTS s' = BOX_DEFAULTS s \<and>
     LINE_DEFAULTS s' = LINE_DEFAULTS s \<and> TEXT_DEFAULTS s' = TEXT_DEFAULTS s \<and>
     uuid4 s' = uuid4 s \<and> files s' = files s"
proof -
  from binding_angles_total obtain theta inverted_theta where
    b: "binding_angles rnd atan2f (center (store s ! start)) (center (store s ! end')) =
          Inr (theta, inverted_theta)"
    by blast
  show ?thesis
    using vs ve k1
    by (simp add: create_binding_arrows_def b call_arrow_ok [OF k2] deref_def
        set_start_binding_def set_end_binding_def modify_def Let_def split_def nth_append)
qed

text \<open>
  Claim C6 (what the creation methods return). \<^verbatim>\<open>Rectangle\<close>, \<^verbatim>\<open>Text\<close>, \<^verbatim>\<open>Line\<close>,
  \<^verbatim>\<open>Arrow\<close>, \<^verbatim>\<open>create_bounding_element\<close> and \<^verbatim>\<open>TextBox\<close> return the reference of
  the primitive they create (\<open>Rectangle_ok\<close>, \<open>Text_ok\<close>, \<open>Line_ok\<close>, \<open>Arrow_ok\<close>,
  \<open>create_bounding_element_rect\<close>). \<^verbatim>\<open>create_binding_arrows\<close> does not: on live
  primitives and keywords that repeat no parameter name it creates an arrow
  and registers it last, and the call evaluates to \<^verbatim>\<open>None\<close>.
\<close>

theorem create_binding_arrows_returns_None:
  assumes "start < length (store s)" and "end' < length (store s)"
    and "\<not> kw_clash [''self'', ''start'', ''end'', ''arrow'', ''padding''] kwargs"
    and "\<not> kw_clash [''self'', ''start_pt'', ''end_pt''] kwargs"
  shows "\<exists>s'. create_binding_arrows rnd atan2f get_edge_midpoint start end' arrow padding
                 kwargs s = Inr (None, s') \<and>
          draw_objs s' = draw_objs s @ [length (store s)] \<and>
          length (store s') = Suc (length (store s)) \<and>
          cls (store s' ! length (store s)) = LineC \<and>
          excal_type (store s' ! length (store s)) = ''arrow''"
proof -
  from create_binding_arrows_ok [OF assms, of rnd atan2f get_edge_midpoint arrow padding]
  obtain s' line where
    "create_binding_arrows rnd atan2f get_edge_midpoint start end' arrow padding kwargs s =
       Inr (None, s')"
    "draw_objs s' = draw_objs s @ [length (store s)]"
    "store s' = store s @ [line]" "cls line = LineC" "excal_type line = ''arrow''"
    by blast
  then show ?thesis by (intro exI [of _ s']) simp
qed

theorem create_binding_arrows_returns_None_witness:
  "\<exists>s'. create_binding_arrows demo_rnd demo_atan2 demo_edge 0 1 None 10 Map.empty demo_state =
          Inr (None, s') \<and>
     draw_objs s' = [0, 1, 2] \<and>
     cls (store s' ! 2) = LineC \<and> excal_type (store s' ! 2) = ''arrow''"
proof -
  have v: "0 < length (store demo_state)" "1 < length (store demo_state)"
    by (simp_all add: demo_state_def)
  have l: "length (store demo_state) = 2" by (simp add: demo_state_def)
  have o: "draw_objs demo_state = [0, 1]" by (simp add: demo_state_def)
  from create_binding_arrows_returns_None [OF v kw_clash_empty kw_clash_empty,
      of demo_rnd demo_atan2 demo_edge None 10]
  show ?thesis unfolding l o by auto
qed

text \<open>
  Claim C10. \<^verbatim>\<open>create_binding_arrows(start, end)\<close> records on the new arrow a
  start binding with the id of \<open>start\<close> and the padding as gap and an end
  binding with the id of \<open>end\<close> and the padding as gap; every primitive that
  existed before the call, \<open>start\<close> and \<open>end\<close> among them, is exactly as it was;
  and neither \<^verbatim>\<open>set_start_binding\<close> nor \<^verbatim>\<open>set_end_binding\<close> changes any primitive
  other than the line it is called on.
\<close>

theorem create_binding_arrows_bindings:
  assumes "start < length (store s)" and "end' < length (store s)"
    and "\<not> kw_clash [''self'', ''start'', ''end'', ''arrow'', ''padding''] kwargs"
    and "\<not> kw_clash [''self'', ''start_pt'', ''end_pt''] kwargs"
  shows "\<exists>s'. create_binding_arrows rnd atan2f get_edge_midpoint start end' arrow padding
                 kwargs s = Inr (None, s') \<and>
          length (store s') = Suc (length (store s)) \<and>
          startBinding (store s' ! length (store s)) =
            Some \<lparr>elementId = prim_id (store s ! start), gap = padding\<rparr> \<and>
          endBinding (store s' ! length (store s)) =
            Some \<lparr>elementId = prim_id (store s ! end'), gap = padding\<rparr> \<and>
          take (length (store s)) (store s') = store s \<and>
          store s' ! start = store s ! start \<and>
          store s' ! end' = store s ! end' \<and>
          (\<forall>line target r. r \<noteq> line \<longrightarrow>
             store (set_start_binding line target padding s) ! r = store s ! r \<and>
             store (set_end_binding line target padding s) ! r = store s ! r)"
proof -
  from create_binding_arrows_ok [OF assms, of rnd atan2f get_edge_midpoint arrow padding]
  obtain s' line where
    res: "create_binding_arrows rnd atan2f get_edge_midpoint start end' arrow padding kwargs s =
            Inr (None, s')"
    and st: "store s' = store s @ [line]"
    and sb: "startBinding line = Some \<lparr>elementId = prim_id (store s ! start), gap = padding\<rparr>"
    and eb: "endBinding line = Some \<lparr>elementId = prim_id (store s ! end'), gap = padding\<rparr>"
    by blast
  have frame: "\<forall>line target r. r \<noteq> line \<longrightarrow>
             store (set_start_binding line target padding s) ! r = store s ! r \<and>
             store (set_end_binding line target padding s) ! r = store s ! r"
    by (simp add: set_start_binding_def set_end_binding_def modify_def)
  have "store s' ! start = store s ! start" "store s' ! end' = store s ! end'"
    using assms(1,2) by (simp_all add: st nth_append)
  moreover have "length (store s') = Suc (length (store s))"
    "take (length (store s)) (store s') = store s"
    "store s' ! length (store s) = line"
    by (simp_all add: st)
  ultimately show ?thesis using res sb eb frame by (intro exI [of _ s']) simp
qed

theorem create_binding_arrows_bindings_witness:
  "\<exists>s'. create_binding_arrows demo_rnd demo_atan2 demo_edge 0 1 None 10 Map.empty demo_state =
          Inr (None, s') \<and>
     startBinding (store s' ! 2) = Some \<lparr>elementId = ''id'', gap = 10\<rparr> \<and>
     endBinding (store s' ! 2) = Some \<lparr>elementId = ''id+'', gap = 10\<rparr> \<and>
     store s' ! 0 = demo_rect ''id'' 100 \<and>
     store s' ! 1 = demo_rect ''id+'' 300"
proof -
  have v: "0 < length (store demo_state)" "1 < length (store demo_state)"
    by (simp_all add: demo_state_def)
  have l: "length (store demo_state) = 2" by (simp add: demo_state_def)
  have e: "store demo_state ! 0 = demo_rect ''id'' 100"
          "store demo_state ! 1 = demo_rect ''id+'' 300"
    by (simp_all add: demo_state_def)
  have i: "prim_id (demo_rect ''id'' 100) = ''id''" "prim_id (demo_rect ''id+'' 300) = ''id+''"
    by (simp_all add: demo_rect_def)
  from create_binding_arrows_bindings [OF v kw_clash_empty kw_clash_empty,
      of demo_rnd demo_atan2 demo_edge None 10]
  show ?thesis unfolding l e i by blast
qed

text \<open>
  The scenario of the spec: between the rectangles at \<open>(100, 100)\<close> and
  \<open>(300, 100)\<close>, both 50 wide, with padding 10, the arrow runs from \<open>x = 135\<close>
  to \<open>x = 265\<close> (under the stand-in \<open>demo_edge\<close> for the edge geometry).
\<close>

lemma demo_binding_arrow_endpoints:
  "\<exists>s'. create_binding_arrows demo_rnd demo_atan2 demo_edge 0 1 None 10 Map.empty demo_state =
          Inr (None, s') \<and>
     (prim_x (store s' ! 2), prim_y (store s' ! 2)) = (135, 100) \<and>
     (prim_x (store s' ! 2) + fst (points (store s' ! 2) ! 1),
      prim_y (store s' ! 2) + snd (points (store s' ! 2) ! 1)) = (265, 100)"
proof -
  have v: "0 < length (store demo_state)" "1 < length (store demo_state)"
    by (simp_all add: demo_state_def)
  have l: "length (store demo_state) = 2" by (simp add: demo_state_def)
  have pos: "0 < math_pi" by (rule math_pi_pos)
  have p1: "demo_edge (store demo_state ! 0) 0 10 = (135, 100)"
    by (simp add: demo_edge_def demo_state_def demo_rect_def)
  have p2: "demo_edge (store demo_state ! 1) (- math_pi) 10 = (265, 100)"
    using pos by (simp add: demo_edge_def demo_state_def demo_rect_def not_le)
  from create_binding_arrows_ok [OF v kw_clash_empty kw_clash_empty,
      of demo_rnd demo_atan2 demo_edge None 10]
  obtain s' line theta inverted_theta where
    res: "create_binding_arrows demo_rnd demo_atan2 demo_edge 0 1 None 10 Map.empty demo_state =
            Inr (None, s')"
    and ang: "binding_angles demo_rnd demo_atan2 (center (store demo_state ! 0))
                (center (store demo_state ! 1)) = Inr (theta, inverted_theta)"
    and st: "store s' = store demo_state @ [line]"
    and a: "(prim_x line, prim_y line) = demo_edge (store demo_state ! 0) theta 10"
    and b: "(prim_x line + fst (points line ! 1), prim_y line + snd (points line ! 1)) =
              demo_edge (store demo_state ! 1) inverted_theta 10"
    by blast
  from ang have "theta = 0" "inverted_theta = - math_pi"
    unfolding demo_binding_angles by simp_all
  with a b have a': "(prim_x line, prim_y line) = (135, 100)"
    and b': "(prim_x line + fst (points line ! 1), prim_y line + snd (points line ! 1)) =
              (265, 100)"
    by (simp_all only: p1 p2)
  have "store s' ! 2 = line" by (simp add: st l nth_append)
  with res a' b' show ?thesis by (intro exI [of _ s']) simp
qed

end
